theory Spec2Isabelle
  imports Main
begin

section \<open>Data model of the client (src/client/client.js)\<close>

text \<open>
  The client of client.js as a record, its methods and middlewares as functions that
  take the client and return it changed. A JavaScript exception is the value
  \<open>Inl TypeError\<close>. The reducer, the game, the transports, the logger and the
  listeners are not part of client.js: the reducer and the game are fields of the
  client, and a call on a transport, on the logger or on a listener is recorded in the
  client's \<open>calls\<close>. The bot (\<^verbatim>\<open>step\<close>), the debug panel (\<^verbatim>\<open>mount\<close>,
  \<^verbatim>\<open>unmount\<close>), \<^verbatim>\<open>reset\<close>, \<^verbatim>\<open>undo\<close>, \<^verbatim>\<open>redo\<close> and a store enhancer
  given by the caller are left out.
\<close>

text \<open>
  JavaScript values that the client only compares with \<^verbatim>\<open>null\<close> and \<^verbatim>\<open>undefined\<close>
  (playerID, gameID, credentials, ctx.currentPlayer).
\<close>

datatype jsid = JUndefined | JNull | JStr string

text \<open>
  The \<^verbatim>\<open>multiplayer\<close> option. \<open>MObject l s t\<close> is an object whose \<^verbatim>\<open>local\<close> property
  is (\<open>l\<close>) or is not strictly equal to \<^verbatim>\<open>true\<close>, whose \<^verbatim>\<open>server\<close> property is
  \<open>s\<close> and whose \<^verbatim>\<open>transport\<close> property is the class \<open>t\<close> (\<open>None\<close> is \<^verbatim>\<open>undefined\<close>).
\<close>

datatype multiplayer =
    MUndefined
  | MNull
  | MBool bool
  | MObject (mp_local: bool) (mp_server: "string option") (mp_transport: "nat option")

text \<open>JavaScript truthiness, as used by \<^verbatim>\<open>!multiplayer\<close> and \<^verbatim>\<open>this.multiplayer && ...\<close>.\<close>

fun truthy :: "multiplayer \<Rightarrow> bool" where
  "truthy MUndefined = False"
| "truthy MNull = False"
| "truthy (MBool b) = b"
| "truthy (MObject l s t) = True"

text \<open>
  A log entry carries its \<^verbatim>\<open>_stateID\<close> (a number) and the rest of the entry, which
  the client never inspects.
\<close>

record 'v log_entry =
  stateID :: int
  entry :: 'v

text \<open>
  The fields of \<^verbatim>\<open>ctx\<close> and of the store state that the client reads.
  \<open>None\<close> stands for \<^verbatim>\<open>undefined\<close>.
\<close>

record 'v ctx =
  currentPlayer :: jsid
  gameover :: "'v option"

record ('g, 'v) state =
  G :: 'g
  ctx :: "'v ctx"
  deltalog :: "'v log_entry list option"

text \<open>The snapshot built by \<^verbatim>\<open>getState\<close>: the state's fields and three more.\<close>

record ('g, 'v) snapshot = "('g, 'v) state" +
  isActive :: bool
  snap_log :: "'v log_entry list"
  isConnected :: bool

datatype action_type =
  MAKE_MOVE | GAME_EVENT | RESET | UNDO | REDO | SYNC | UPDATE | OTHER string

record 'v payload =
  p_type :: string
  p_args :: "'v list"
  p_playerID :: jsid
  p_credentials :: jsid

record ('g, 'v) action =
  atype :: action_type
  payload :: "'v payload option"
  a_state :: "('g, 'v) state option"
  a_deltalog :: "'v log_entry list option"
  a_log :: "'v log_entry list option"
  clientOnly :: "bool option"

text \<open>
  The rule engine, as the client consumes it (the result of \<^verbatim>\<open>Game(game)\<close>);
  \<open>gref\<close> is the identity of the game definition object the caller passed, which
  \<^verbatim>\<open>localMaster_.config !== game\<close> compares by reference.
\<close>

record ('g, 'v) game =
  gref :: nat
  name :: string
  moveNames :: "string list"
  enabledEventNames :: "string list"
  isPlayerActive :: "'g \<Rightarrow> 'v ctx \<Rightarrow> jsid \<Rightarrow> bool"
  playerView :: "'g \<Rightarrow> 'v ctx \<Rightarrow> jsid \<Rightarrow> 'g"

text \<open>
  The subscription callback is a closure: the initial \<^verbatim>\<open>() => {}\<close>, or the one
  \<^verbatim>\<open>subscribe\<close> builds from the previous callback and a listener. Listeners are
  functions of the caller, named here by a number.
\<close>

datatype callback = CbNoop | CbChain callback nat

text \<open>The local master: its identity and the \<^verbatim>\<open>config\<close> property the client sets on it.\<close>

record master =
  m_id :: nat
  config :: nat

record targs =
  t_gameID :: jsid
  t_playerID :: jsid
  t_gameName :: string
  t_numPlayers :: "nat option"
  t_isConnected :: bool

datatype transport =
    DefaultTransport
  | Local master targs
  | SocketIO "string" targs
  | CustomTransport nat targs

fun transport_isConnected :: "transport \<Rightarrow> bool" where
  "transport_isConnected DefaultTransport = True"
| "transport_isConnected (Local m t) = t_isConnected t"
| "transport_isConnected (SocketIO s t) = t_isConnected t"
| "transport_isConnected (CustomTransport k t) = t_isConnected t"

text \<open>
  A dispatcher is the closure \<^verbatim>\<open>createDispatchers\<close> stores under a name: it has
  captured the action creator, the name, playerID, credentials and multiplayer.
\<close>

datatype creator = MakeMove | GameEvent

record dispatcher =
  d_creator :: creator
  d_name :: string
  d_playerID :: jsid
  d_credentials :: jsid
  d_multiplayer :: multiplayer

text \<open>
  The calls the client makes on code that is not part of it: the hooks of the transport,
  the listeners and the logger. The client record keeps them in the order made
  (\<open>calls\<close>); the called code is taken to return without acting on the client, which is
  what the default transport does.
\<close>

datatype ('g, 'v) call =
    OnAction "('g, 'v) state option" "('g, 'v) action"
  | TransportSubscribe callback
  | SubscribeGameMetadata
  | Connect
  | UpdateGameID jsid
  | UpdatePlayerID jsid
  | Listener nat "('g, 'v) snapshot option"
  | LoggerError string

datatype error = TypeError

record ('g, 'v) client =
  game :: "('g, 'v) game"
  playerID :: jsid
  gameID :: jsid
  credentials :: jsid
  multiplayer :: multiplayer
  subscribeCallback :: callback
  reducer :: "('g, 'v) state option \<Rightarrow> ('g, 'v) action \<Rightarrow> ('g, 'v) state option"
  initialState :: "('g, 'v) state option"
  store :: "('g, 'v) state option"
  log :: "'v log_entry list"
  transport :: transport
  moves :: "string \<rightharpoonup> dispatcher"
  events :: "string \<rightharpoonup> dispatcher"
  calls :: "('g, 'v) call list"

section \<open>getState\<close>

definition getState :: "('g, 'v) client \<Rightarrow> ('g, 'v) snapshot option" where
  "getState c =
     (case store c of
        None \<Rightarrow> None
      | Some st \<Rightarrow>
          (let active = isPlayerActive (game c) (G st) (ctx st) (playerID c);
               a0 = True;
               a1 = (if truthy (multiplayer c) \<and> \<not> active then False else a0);
               a2 = (if \<not> truthy (multiplayer c) \<and> playerID c \<noteq> JNull \<and>
                        playerID c \<noteq> JUndefined \<and> \<not> active then False else a1);
               a3 = (if gameover (ctx st) \<noteq> None then False else a2);
               G' = playerView (game c) (G st) (ctx st) (playerID c)
           in Some \<lparr>G = G', ctx = ctx st, deltalog = deltalog st,
                    isActive = a3, snap_log = log c,
                    isConnected = transport_isConnected (transport c)\<rparr>))"

section \<open>The subscription callback\<close>

fun invoke :: "callback \<Rightarrow> ('g, 'v) client \<Rightarrow> ('g, 'v) client" where
  "invoke CbNoop c = c"
| "invoke (CbChain prev fn) c =
     (let c1 = invoke prev c
      in c1\<lparr>calls := calls c1 @ [Listener fn (getState c1)]\<rparr>)"

section \<open>The middleware pipeline\<close>

text \<open>
  The store's own dispatch (redux): the reducer is applied to the current state and the
  action is returned.
\<close>

definition store_dispatch ::
  "('g, 'v) action \<Rightarrow> ('g, 'v) client \<Rightarrow> error + (('g, 'v) action \<times> ('g, 'v) client)" where
  "store_dispatch a c = Inr (a, c\<lparr>store := reducer c (store c) a\<rparr>)"

text \<open>\<^verbatim>\<open>[...this.log, ...deltalog]\<close> throws a TypeError when \<^verbatim>\<open>deltalog\<close> is undefined.\<close>

definition spread_log ::
  "'v log_entry list \<Rightarrow> 'v log_entry list option \<Rightarrow> error + 'v log_entry list" where
  "spread_log l d = (case d of None \<Rightarrow> Inl TypeError | Some dl \<Rightarrow> Inr (l @ dl))"

definition last_id :: "'v log_entry list \<Rightarrow> int" where
  "last_id l = (let id = -1 in if length l > 0 then stateID (l ! (length l - 1)) else id)"

definition or_empty :: "'a list option \<Rightarrow> 'a list" where
  "or_empty d = (case d of None \<Rightarrow> [] | Some l \<Rightarrow> l)"

definition update_log :: "'v log_entry list \<Rightarrow> ('g, 'v) action \<Rightarrow> 'v log_entry list" where
  "update_log l a =
     (let id = last_id l;
          dl = or_empty (a_deltalog a);
          dl = filter (\<lambda>e. stateID e > id) dl
      in l @ dl)"

definition LogMiddleware ::
  "(('g, 'v) action \<Rightarrow> ('g, 'v) client \<Rightarrow> error + ('r \<times> ('g, 'v) client)) \<Rightarrow>
   ('g, 'v) action \<Rightarrow> ('g, 'v) client \<Rightarrow> error + ('r \<times> ('g, 'v) client)" where
  "LogMiddleware next a c =
     (case next a c of
        Inl e \<Rightarrow> Inl e
      | Inr (result, c1) \<Rightarrow>
          (let state = store c1 in
           if atype a = MAKE_MOVE \<or> atype a = GAME_EVENT then
             (case state of
                None \<Rightarrow> Inl TypeError
              | Some st \<Rightarrow>
                  (case spread_log (log c1) (deltalog st) of
                     Inl e \<Rightarrow> Inl e
                   | Inr l \<Rightarrow> Inr (result, c1\<lparr>log := l\<rparr>)))
           else if atype a = RESET then Inr (result, c1\<lparr>log := []\<rparr>)
           else if atype a = UPDATE then Inr (result, c1\<lparr>log := update_log (log c1) a\<rparr>)
           else if atype a = SYNC then Inr (result, c1\<lparr>log := or_empty (a_log a)\<rparr>)
           else Inr (result, c1)))"

definition TransportMiddleware ::
  "(('g, 'v) action \<Rightarrow> ('g, 'v) client \<Rightarrow> error + ('r \<times> ('g, 'v) client)) \<Rightarrow>
   ('g, 'v) action \<Rightarrow> ('g, 'v) client \<Rightarrow> error + ('r \<times> ('g, 'v) client)" where
  "TransportMiddleware next a c =
     (let baseState = store c in
      case next a c of
        Inl e \<Rightarrow> Inl e
      | Inr (result, c1) \<Rightarrow>
          if clientOnly a \<noteq> Some True
          then Inr (result, c1\<lparr>calls := calls c1 @ [OnAction baseState a]\<rparr>)
          else Inr (result, c1))"

definition SubscriptionMiddleware ::
  "(('g, 'v) action \<Rightarrow> ('g, 'v) client \<Rightarrow> error + ('r \<times> ('g, 'v) client)) \<Rightarrow>
   ('g, 'v) action \<Rightarrow> ('g, 'v) client \<Rightarrow> error + ('r \<times> ('g, 'v) client)" where
  "SubscriptionMiddleware next a c =
     (case next a c of
        Inl e \<Rightarrow> Inl e
      | Inr (result, c1) \<Rightarrow> Inr (result, invoke (subscribeCallback c1) c1))"

text \<open>
  \<^verbatim>\<open>applyMiddleware(SubscriptionMiddleware, TransportMiddleware, LogMiddleware)\<close>:
  the first wraps the second, which wraps the third, which wraps the store's dispatch.
\<close>

definition dispatch ::
  "('g, 'v) action \<Rightarrow> ('g, 'v) client \<Rightarrow> error + (('g, 'v) action \<times> ('g, 'v) client)" where
  "dispatch = SubscriptionMiddleware (TransportMiddleware (LogMiddleware store_dispatch))"

fun dispatch_all ::
  "('g, 'v) action list \<Rightarrow> ('g, 'v) client \<Rightarrow> error + ('g, 'v) client" where
  "dispatch_all [] c = Inr c"
| "dispatch_all (a # as) c =
     (case dispatch a c of Inl e \<Rightarrow> Inl e | Inr (result, c1) \<Rightarrow> dispatch_all as c1)"

section \<open>Dispatchers\<close>

text \<open>
  Modelled from the spec: the action creators \<^verbatim>\<open>makeMove\<close> and \<^verbatim>\<open>gameEvent\<close> of
  core/action-creators, which is not among the sources. The spec gives
  MAKE_MOVE(type, args, playerID, credentials) and
  GAME_EVENT(type, args, playerID, credentials).
\<close>

definition ActionCreators ::
  "creator \<Rightarrow> string \<Rightarrow> 'v list \<Rightarrow> jsid \<Rightarrow> jsid \<Rightarrow> ('g, 'v) action" where
  "ActionCreators k ty args pid cred =
     \<lparr>atype = (case k of MakeMove \<Rightarrow> MAKE_MOVE | GameEvent \<Rightarrow> GAME_EVENT),
      payload = Some \<lparr>p_type = ty, p_args = args, p_playerID = pid, p_credentials = cred\<rparr>,
      a_state = None, a_deltalog = None, a_log = None, clientOnly = None\<rparr>"

definition createDispatchers ::
  "creator \<Rightarrow> string list \<Rightarrow> jsid \<Rightarrow> jsid \<Rightarrow> multiplayer \<Rightarrow> (string \<rightharpoonup> dispatcher)" where
  "createDispatchers storeActionType innerActionNames pid cred mp =
     fold (\<lambda>nm dispatchers.
             dispatchers(nm \<mapsto> \<lparr>d_creator = storeActionType, d_name = nm, d_playerID = pid,
                                d_credentials = cred, d_multiplayer = mp\<rparr>))
          innerActionNames Map.empty"

definition createEventDispatchers ::
  "string list \<Rightarrow> jsid \<Rightarrow> jsid \<Rightarrow> multiplayer \<Rightarrow> (string \<rightharpoonup> dispatcher)" where
  "createEventDispatchers = createDispatchers GameEvent"

definition createMoveDispatchers ::
  "string list \<Rightarrow> jsid \<Rightarrow> jsid \<Rightarrow> multiplayer \<Rightarrow> (string \<rightharpoonup> dispatcher)" where
  "createMoveDispatchers = createDispatchers MakeMove"

text \<open>
  Calling a dispatcher: the identity is resolved, the action is built and dispatched.
  \<^verbatim>\<open>state.ctx\<close> throws a TypeError when the store holds \<^verbatim>\<open>null\<close>.
\<close>

definition assumedPlayerID :: "dispatcher \<Rightarrow> ('g, 'v) client \<Rightarrow> error + jsid" where
  "assumedPlayerID d c =
     (if \<not> truthy (d_multiplayer d) \<and> (d_playerID d = JNull \<or> d_playerID d = JUndefined)
      then (case store c of
              None \<Rightarrow> Inl TypeError
            | Some st \<Rightarrow> Inr (currentPlayer (ctx st)))
      else Inr (d_playerID d))"

definition dispatcher_action ::
  "dispatcher \<Rightarrow> 'v list \<Rightarrow> ('g, 'v) client \<Rightarrow> error + ('g, 'v) action" where
  "dispatcher_action d args c =
     (case assumedPlayerID d c of
        Inl e \<Rightarrow> Inl e
      | Inr pid \<Rightarrow> Inr (ActionCreators (d_creator d) (d_name d) args pid (d_credentials d)))"

definition call_dispatcher ::
  "dispatcher \<Rightarrow> 'v list \<Rightarrow> ('g, 'v) client \<Rightarrow> error + ('g, 'v) client" where
  "call_dispatcher d args c =
     (case dispatcher_action d args c of
        Inl e \<Rightarrow> Inl e
      | Inr a \<Rightarrow> (case dispatch a c of Inl e \<Rightarrow> Inl e | Inr (result, c1) \<Rightarrow> Inr c1))"

section \<open>Methods of the client\<close>

definition client_createDispatchers :: "('g, 'v) client \<Rightarrow> ('g, 'v) client" where
  "client_createDispatchers c =
     (let c1 = c\<lparr>moves := createMoveDispatchers (moveNames (game c)) (playerID c)
                            (credentials c) (multiplayer c)\<rparr>
      in c1\<lparr>events := createEventDispatchers (enabledEventNames (game c1)) (playerID c1)
                         (credentials c1) (multiplayer c1)\<rparr>)"

text \<open>
  \<^verbatim>\<open>subscribe\<close> returns a handle, the closure that puts \<^verbatim>\<open>prev\<close> back.
\<close>

datatype handle = Handle callback

definition subscribe :: "nat \<Rightarrow> ('g, 'v) client \<Rightarrow> handle \<times> ('g, 'v) client" where
  "subscribe fn c =
     (let prev = subscribeCallback c;
          callback = CbChain prev fn;
          c1 = c\<lparr>subscribeCallback := callback\<rparr>;
          c2 = c1\<lparr>calls := calls c1 @ [TransportSubscribe callback]\<rparr>;
          c3 = invoke callback c2
      in (Handle prev, c3))"

fun call_handle :: "handle \<Rightarrow> ('g, 'v) client \<Rightarrow> ('g, 'v) client" where
  "call_handle (Handle prev) c = c\<lparr>subscribeCallback := prev\<rparr>"

definition connect :: "('g, 'v) client \<Rightarrow> ('g, 'v) client" where
  "connect c = c\<lparr>calls := calls c @ [Connect]\<rparr>"

definition updatePlayerID :: "jsid \<Rightarrow> ('g, 'v) client \<Rightarrow> ('g, 'v) client" where
  "updatePlayerID pid c =
     (let c1 = c\<lparr>playerID := pid\<rparr>;
          c2 = client_createDispatchers c1
      in c2\<lparr>calls := calls c2 @ [UpdatePlayerID pid]\<rparr>)"

definition updateGameID :: "jsid \<Rightarrow> ('g, 'v) client \<Rightarrow> ('g, 'v) client" where
  "updateGameID gid c =
     (let c1 = c\<lparr>gameID := gid\<rparr>;
          c2 = client_createDispatchers c1
      in c2\<lparr>calls := calls c2 @ [UpdateGameID gid]\<rparr>)"

definition updateCredentials :: "jsid \<Rightarrow> ('g, 'v) client \<Rightarrow> ('g, 'v) client" where
  "updateCredentials cred c =
     (let c1 = c\<lparr>credentials := cred\<rparr>
      in client_createDispatchers c1)"

section \<open>Construction\<close>

text \<open>
  What the constructor imports from modules that are not among the sources, taken as
  parameters: \<^verbatim>\<open>CreateGameReducer\<close>, \<^verbatim>\<open>InitializeGame\<close>, and the \<^verbatim>\<open>isConnected\<close>
  flag a transport object starts with.
\<close>

record ('g, 'v) core =
  CreateGameReducer ::
    "('g, 'v) game \<Rightarrow> nat option \<Rightarrow> multiplayer \<Rightarrow>
     ('g, 'v) state option \<Rightarrow> ('g, 'v) action \<Rightarrow> ('g, 'v) state option"
  InitializeGame :: "('g, 'v) game \<Rightarrow> nat option \<Rightarrow> ('g, 'v) state"
  initiallyConnected :: "multiplayer \<Rightarrow> bool"

record ('g, 'v) opts =
  o_game :: "('g, 'v) game"
  o_numPlayers :: "nat option"
  o_multiplayer :: multiplayer
  o_gameID :: jsid
  o_playerID :: jsid
  o_credentials :: jsid

text \<open>
  The module-level variable \<^verbatim>\<open>localMaster_\<close>, here \<open>localMaster\<close> (\<open>None\<close> is \<^verbatim>\<open>null\<close>), and the number
  of LocalMaster objects created so far, which names the next one.
\<close>

record global =
  localMaster :: "master option"
  masters :: nat

definition newMaster :: "nat \<Rightarrow> global \<Rightarrow> master \<times> global" where
  "newMaster gr g =
     (let m = \<lparr>m_id = masters g, config = gr\<rparr>
      in (m, \<lparr>localMaster = Some m, masters = masters g + 1\<rparr>))"

definition ensureMaster :: "nat \<Rightarrow> global \<Rightarrow> master \<times> global" where
  "ensureMaster gr g =
     (case localMaster g of
        None \<Rightarrow> newMaster gr g
      | Some m \<Rightarrow> if config m \<noteq> gr then newMaster gr g else (m, g))"

text \<open>redux's \<^verbatim>\<open>createStore\<close> runs the reducer once, on its own initial action.\<close>

definition redux_init :: "('g, 'v) action" where
  "redux_init = \<lparr>atype = OTHER ''@@redux/INIT'', payload = None, a_state = None,
                 a_deltalog = None, a_log = None, clientOnly = None\<rparr>"

definition createStore ::
  "(('g, 'v) state option \<Rightarrow> ('g, 'v) action \<Rightarrow> ('g, 'v) state option) \<Rightarrow>
   ('g, 'v) state option \<Rightarrow> ('g, 'v) state option" where
  "createStore r init = r init redux_init"

text \<open>
  Lines 259 to 299: the choice of the transport. Reading a property of \<^verbatim>\<open>null\<close>
  throws a TypeError; reading one of a boolean gives \<^verbatim>\<open>undefined\<close>.
\<close>

definition selectTransport ::
  "('g, 'v) core \<Rightarrow> ('g, 'v) opts \<Rightarrow> ('g, 'v) client \<Rightarrow> global \<Rightarrow>
   error + (('g, 'v) client \<times> global)" where
  "selectTransport k opt c g =
     (if o_multiplayer opt \<noteq> MUndefined then
        (let mp = (if o_multiplayer opt = MBool True then MObject False (Some '''') None
                   else o_multiplayer opt);
             ta = \<lparr>t_gameID = o_gameID opt, t_playerID = o_playerID opt,
                   t_gameName = name (game c), t_numPlayers = o_numPlayers opt,
                   t_isConnected = initiallyConnected k mp\<rparr>
         in case mp of
              MUndefined \<Rightarrow> Inl TypeError
            | MNull \<Rightarrow> Inl TypeError
            | MBool b \<Rightarrow> Inr (c\<lparr>calls := calls c @ [LoggerError ''invalid multiplayer spec'']\<rparr>, g)
            | MObject l s t \<Rightarrow>
                if l then
                  (case ensureMaster (gref (o_game opt)) g of
                     (m, g1) \<Rightarrow> Inr (c\<lparr>transport := Local m ta\<rparr>, g1))
                else (case s of
                  Some server \<Rightarrow> Inr (c\<lparr>transport := SocketIO server ta\<rparr>, g)
                | None \<Rightarrow>
                    (case t of
                       Some cls \<Rightarrow> Inr (c\<lparr>transport := CustomTransport cls ta\<rparr>, g)
                     | None \<Rightarrow>
                         Inr (c\<lparr>calls := calls c @ [LoggerError ''invalid multiplayer spec'']\<rparr>,
                              g))))
      else Inr (c, g))"

definition Client ::
  "('g, 'v) core \<Rightarrow> ('g, 'v) opts \<Rightarrow> global \<Rightarrow> error + (('g, 'v) client \<times> global)" where
  "Client k opt g =
     (let r = CreateGameReducer k (o_game opt) (o_numPlayers opt) (o_multiplayer opt);
          init = (if o_multiplayer opt = MUndefined
                  then Some (InitializeGame k (o_game opt) (o_numPlayers opt)) else None);
          c = \<lparr>game = o_game opt, playerID = o_playerID opt, gameID = o_gameID opt,
               credentials = o_credentials opt, multiplayer = o_multiplayer opt,
               subscribeCallback = CbNoop, reducer = r, initialState = init,
               store = createStore r init, log = [], transport = DefaultTransport,
               moves = Map.empty, events = Map.empty, calls = []\<rparr>
      in case selectTransport k opt c g of
           Inl e \<Rightarrow> Inl e
         | Inr (c1, g1) \<Rightarrow>
             (let c2 = client_createDispatchers c1
              in Inr (c2\<lparr>calls := calls c2 @ [SubscribeGameMetadata]\<rparr>, g1)))"

fun construct_all ::
  "('g, 'v) core \<Rightarrow> ('g, 'v) opts list \<Rightarrow> global \<Rightarrow> error + (('g, 'v) client list \<times> global)" where
  "construct_all k [] g = Inr ([], g)"
| "construct_all k (opt # opts) g =
     (case Client k opt g of
        Inl e \<Rightarrow> Inl e
      | Inr (c, g1) \<Rightarrow>
          (case construct_all k opts g1 of
             Inl e \<Rightarrow> Inl e
           | Inr (cs, g2) \<Rightarrow> Inr (c # cs, g2)))"

section \<open>Observers used in the statements\<close>

text \<open>The listeners a callback calls, in the order it calls them.\<close>

fun listeners :: "callback \<Rightarrow> nat list" where
  "listeners CbNoop = []"
| "listeners (CbChain prev fn) = listeners prev @ [fn]"

text \<open>The stateIDs of the log a run ends with (none when it threw).\<close>

definition final_stateIDs :: "error + ('g, 'v) client \<Rightarrow> int list option" where
  "final_stateIDs r = (case r of Inl e \<Rightarrow> None | Inr c \<Rightarrow> Some (map stateID (log c)))"

text \<open>The master a client's transport was given (none unless the transport is Local).\<close>

fun master_of :: "transport \<Rightarrow> master option" where
  "master_of (Local m t) = Some m"
| "master_of DefaultTransport = None"
| "master_of (SocketIO s t) = None"
| "master_of (CustomTransport k t) = None"

definition masters_of :: "error + (('g, 'v) client list \<times> global) \<Rightarrow> nat option list" where
  "masters_of r =
     (case r of
        Inl e \<Rightarrow> []
      | Inr (cs, g) \<Rightarrow> map (\<lambda>c. map_option m_id (master_of (transport c))) cs)"

section \<open>A small game, for concrete runs\<close>

definition demo_game :: "(nat, nat) game" where
  "demo_game =
     \<lparr>gref = 0, name = ''demo'', moveNames = [''draw''], enabledEventNames = [''endTurn''],
      isPlayerActive = (\<lambda>g cx p. p = currentPlayer cx),
      playerView = (\<lambda>g cx p. g)\<rparr>"

definition demo_state :: "(nat, nat) state" where
  "demo_state = \<lparr>G = 0, ctx = \<lparr>currentPlayer = JStr ''0'', gameover = None\<rparr>,
                 deltalog = Some []\<rparr>"

definition other_player :: "jsid \<Rightarrow> jsid" where
  "other_player p = (if p = JStr ''0'' then JStr ''1'' else JStr ''0'')"

text \<open>
  A reducer in the shape of the rule engine's: a move counts up, passes the turn and
  emits one log entry; RESET, SYNC and UPDATE install the state the action carries.
\<close>

definition demo_reducer ::
  "(nat, nat) state option \<Rightarrow> (nat, nat) action \<Rightarrow> (nat, nat) state option" where
  "demo_reducer s a =
     (if atype a = MAKE_MOVE then
        (case s of
           None \<Rightarrow> None
         | Some st \<Rightarrow>
             Some \<lparr>G = G st + 1,
                   ctx = \<lparr>currentPlayer = other_player (currentPlayer (ctx st)),
                          gameover = gameover (ctx st)\<rparr>,
                   deltalog = Some [\<lparr>stateID = int (G st), entry = 7\<rparr>]\<rparr>)
      else if atype a = RESET \<or> atype a = SYNC \<or> atype a = UPDATE then a_state a
      else s)"

definition demo_core :: "(nat, nat) core" where
  "demo_core = \<lparr>CreateGameReducer = (\<lambda>gm n mp. demo_reducer),
                InitializeGame = (\<lambda>gm n. demo_state),
                initiallyConnected = (\<lambda>mp. False)\<rparr>"

definition demo_opts :: "(nat, nat) opts" where
  "demo_opts = \<lparr>o_game = demo_game, o_numPlayers = Some 2, o_multiplayer = MUndefined,
                o_gameID = JStr ''default'', o_playerID = JUndefined,
                o_credentials = JUndefined\<rparr>"

definition demo_global :: global where
  "demo_global = \<lparr>localMaster = None, masters = 0\<rparr>"

text \<open>The client \<open>Client demo_core demo_opts demo_global\<close> builds, before its dispatchers.\<close>

definition demo_client :: "(nat, nat) client" where
  "demo_client =
     \<lparr>game = demo_game, playerID = JUndefined, gameID = JStr ''default'',
      credentials = JUndefined, multiplayer = MUndefined, subscribeCallback = CbNoop,
      reducer = demo_reducer, initialState = Some demo_state, store = Some demo_state,
      log = [], transport = DefaultTransport, moves = Map.empty, events = Map.empty,
      calls = []\<rparr>"

definition demo_action :: "action_type \<Rightarrow> (nat, nat) action" where
  "demo_action ty = \<lparr>atype = ty, payload = None, a_state = None, a_deltalog = None,
                     a_log = None, clientOnly = None\<rparr>"

definition demo_update :: "int list \<Rightarrow> (nat, nat) action" where
  "demo_update ids =
     \<lparr>atype = UPDATE, payload = None, a_state = Some demo_state,
      a_deltalog = Some (map (\<lambda>i. \<lparr>stateID = i, entry = 7\<rparr>) ids),
      a_log = None, clientOnly = Some True\<rparr>"

text \<open>The calls a client has made when a middleware returns (none when it threw).\<close>

definition final_calls :: "error + ('r \<times> ('g, 'v) client) \<Rightarrow> ('g, 'v) call list option" where
  "final_calls r = (case r of Inl e \<Rightarrow> None | Inr (x, c) \<Rightarrow> Some (calls c))"

text \<open>A state of the demo game in which the game is over.\<close>

definition demo_over :: "(nat, nat) state" where
  "demo_over = \<lparr>G = 3, ctx = \<lparr>currentPlayer = JStr ''0'', gameover = Some 1\<rparr>,
                deltalog = Some []\<rparr>"


fun mp_is_local :: "multiplayer \<Rightarrow> bool" where
  "mp_is_local (MObject l s t) = l"
| "mp_is_local MUndefined = False"
| "mp_is_local MNull = False"
| "mp_is_local (MBool b) = False"

text \<open>Options for a client of the demo game with a local master; \<open>n\<close> names the game definition.\<close>

definition demo_local :: "nat \<Rightarrow> (nat, nat) opts" where
  "demo_local n = \<lparr>o_game = demo_game\<lparr>gref := n\<rparr>, o_numPlayers = Some 2,
                   o_multiplayer = MObject True None None, o_gameID = JStr ''default'',
                   o_playerID = JStr ''0'', o_credentials = JUndefined\<rparr>"

text \<open>The dispatcher the demo client holds under the name "draw".\<close>

definition demo_draw :: dispatcher where
  "demo_draw = \<lparr>d_creator = MakeMove, d_name = ''draw'', d_playerID = JUndefined,
                d_credentials = JUndefined, d_multiplayer = MUndefined\<rparr>"


section \<open>Facts about the pipeline\<close>

lemma getState_calls: "getState (c\<lparr>calls := x\<rparr>) = getState c"
  by (simp add: getState_def split: option.splits)

lemma invoke_eq:
  "invoke cb c = c\<lparr>calls := calls c @ map (\<lambda>f. Listener f (getState c)) (listeners cb)\<rparr>"
proof (induction cb arbitrary: c)
  case CbNoop
  show ?case by simp
next
  case (CbChain prev fn)
  show ?case
    by (simp add: CbChain.IH [of c] Let_def getState_calls)
qed

lemma store_dispatch_eq:
  "store_dispatch a c = Inr (a, c\<lparr>store := reducer c (store c) a\<rparr>)"
  by (simp add: store_dispatch_def)

text \<open>What the two outer middlewares add to the result of the log middleware.\<close>

lemma dispatch_eq:
  "dispatch a c =
     (case LogMiddleware store_dispatch a c of
        Inl e \<Rightarrow> Inl e
      | Inr (r, c1) \<Rightarrow>
          Inr (r, c1\<lparr>calls := calls c1
                          @ (if clientOnly a = Some True then [] else [OnAction (store c) a])
                          @ map (\<lambda>f. Listener f (getState c1))
                                (listeners (subscribeCallback c1))\<rparr>))"
  by (simp add: dispatch_def SubscriptionMiddleware_def TransportMiddleware_def invoke_eq
      getState_calls split: sum.splits prod.splits)

lemma Log_UPDATE:
  "atype a = UPDATE \<Longrightarrow>
   LogMiddleware store_dispatch a c =
     Inr (a, c\<lparr>store := reducer c (store c) a, log := update_log (log c) a\<rparr>)"
  by (simp add: LogMiddleware_def store_dispatch_def)

lemma Log_RESET:
  "atype a = RESET \<Longrightarrow>
   LogMiddleware store_dispatch a c = Inr (a, c\<lparr>store := reducer c (store c) a, log := []\<rparr>)"
  by (simp add: LogMiddleware_def store_dispatch_def)

lemma Log_MOVE:
  "atype a = MAKE_MOVE \<or> atype a = GAME_EVENT \<Longrightarrow>
   reducer c (store c) a = Some st \<Longrightarrow> deltalog st = Some dl \<Longrightarrow>
   LogMiddleware store_dispatch a c = Inr (a, c\<lparr>store := Some st, log := log c @ dl\<rparr>)"
  by (auto simp add: LogMiddleware_def store_dispatch_def spread_log_def)

section \<open>The log under UPDATE\<close>

lemma last_id_eq: "last_id l = (if l = [] then -1 else stateID (last l))"
  by (simp add: last_id_def last_conv_nth)

lemma strict_le_last:
  "sorted_wrt (<) (xs :: int list) \<Longrightarrow> x \<in> set xs \<Longrightarrow> x \<le> last xs"
  by (induction xs rule: rev_induct) (auto simp: sorted_wrt_append)

lemma update_log_sorted:
  assumes "sorted_wrt (<) (map stateID l)"
    and "sorted_wrt (<) (map stateID (or_empty (a_deltalog a)))"
  shows "sorted_wrt (<) (map stateID (update_log l a))"
proof -
  let ?dl = "filter (\<lambda>e. stateID e > last_id l) (or_empty (a_deltalog a))"
  have kept: "sorted_wrt (<) (map stateID ?dl)"
    using assms(2) by (simp add: sorted_wrt_map sorted_wrt_filter)
  have cross: "stateID x < stateID y" if "x \<in> set l" "y \<in> set ?dl" for x y
  proof -
    from that(1) have ne: "l \<noteq> []" by auto
    have "stateID x \<le> last (map stateID l)"
      using strict_le_last [OF assms(1)] that(1) by simp
    also have "\<dots> = last_id l" using ne by (simp add: last_id_eq last_map)
    also have "\<dots> < stateID y" using that(2) by simp
    finally show ?thesis .
  qed
  show ?thesis
    using assms(1) kept cross
    by (simp add: update_log_def Let_def sorted_wrt_append)
qed

lemma dispatch_UPDATE:
  "atype a = UPDATE \<Longrightarrow>
   \<exists>c1. dispatch a c = Inr (a, c1) \<and> log c1 = update_log (log c) a"
  by (simp add: dispatch_eq Log_UPDATE)

lemma dispatch_all_UPDATE_sorted:
  assumes "\<forall>a \<in> set as. atype a = UPDATE \<and>
             sorted_wrt (<) (map stateID (or_empty (a_deltalog a)))"
    and "sorted_wrt (<) (map stateID (log c))"
  shows "\<exists>c1. dispatch_all as c = Inr c1 \<and> sorted_wrt (<) (map stateID (log c1))"
  using assms
proof (induction as arbitrary: c)
  case Nil
  then show ?case by simp
next
  case (Cons a as)
  from Cons.prems(1) have upd: "atype a = UPDATE"
    and dl: "sorted_wrt (<) (map stateID (or_empty (a_deltalog a)))"
    by simp_all
  from dispatch_UPDATE [OF upd, of c] obtain c1
    where step: "dispatch a c = Inr (a, c1)" and l1: "log c1 = update_log (log c) a"
    by blast
  have "sorted_wrt (<) (map stateID (log c1))"
    using update_log_sorted [OF Cons.prems(2) dl] l1 by simp
  with Cons.IH [of c1] Cons.prems(1) obtain c2
    where "dispatch_all as c1 = Inr c2" and "sorted_wrt (<) (map stateID (log c2))"
    by auto
  with step show ?case by simp
qed

text \<open>
  C1, as amended. Starting from a log whose stateIDs are strictly increasing (the empty
  log of a new client is one), a sequence of UPDATE actions each of whose deltalogs is
  strictly increasing in stateID is processed without error and leaves a log whose
  stateIDs are strictly increasing, so each occurs at most once. The mechanism holds
  for every UPDATE and every client: the log becomes the old log followed by the
  entries of the deltalog whose stateID is greater than that of the last entry held
  (greater than -1 when the log is empty).
\<close>

theorem update_keeps_log_strictly_increasing:
  assumes "\<forall>a \<in> set as. atype a = UPDATE \<and>
             sorted_wrt (<) (map stateID (or_empty (a_deltalog a)))"
    and "sorted_wrt (<) (map stateID (log c))"
  shows "(\<exists>c1. dispatch_all as c = Inr c1 \<and> sorted_wrt (<) (map stateID (log c1)) \<and>
               distinct (map stateID (log c1))) \<and>
         (\<forall>a \<in> set as. \<forall>d. \<exists>d1. dispatch a d = Inr (a, d1) \<and>
               log d1 = log d @ filter (\<lambda>e. stateID e >
                                          (if log d = [] then -1 else stateID (last (log d))))
                                       (or_empty (a_deltalog a)))"
proof
  from dispatch_all_UPDATE_sorted [OF assms] obtain c1
    where "dispatch_all as c = Inr c1" and "sorted_wrt (<) (map stateID (log c1))"
    by blast
  then show "\<exists>c1. dispatch_all as c = Inr c1 \<and> sorted_wrt (<) (map stateID (log c1)) \<and>
               distinct (map stateID (log c1))"
    by (auto simp: strict_sorted_iff)
next
  show "\<forall>a \<in> set as. \<forall>d. \<exists>d1. dispatch a d = Inr (a, d1) \<and>
               log d1 = log d @ filter (\<lambda>e. stateID e >
                                          (if log d = [] then -1 else stateID (last (log d))))
                                       (or_empty (a_deltalog a))"
  proof (intro ballI allI)
    fix a d
    assume "a \<in> set as"
    with assms(1) have "atype a = UPDATE" by simp
    from dispatch_UPDATE [OF this, of d]
    show "\<exists>d1. dispatch a d = Inr (a, d1) \<and>
               log d1 = log d @ filter (\<lambda>e. stateID e >
                                          (if log d = [] then -1 else stateID (last (log d))))
                                       (or_empty (a_deltalog a))"
      by (simp add: update_log_def last_id_eq)
  qed
qed

lemma final_stateIDs_updates:
  "\<forall>a \<in> set as. atype a = UPDATE \<Longrightarrow>
   final_stateIDs (dispatch_all as c) =
     Some (map stateID (fold (\<lambda>a l. update_log l a) as (log c)))"
proof (induction as arbitrary: c)
  case Nil
  show ?case by (simp add: final_stateIDs_def)
next
  case (Cons a as)
  from Cons.prems have upd: "atype a = UPDATE" by simp
  from dispatch_UPDATE [OF upd, of c] obtain c1
    where step: "dispatch a c = Inr (a, c1)" and l1: "log c1 = update_log (log c) a"
    by blast
  from Cons.IH [of c1] Cons.prems step l1 show ?case by simp
qed

lemma demo_update_type: "atype (demo_update ids) = UPDATE"
  by (simp add: demo_update_def)

lemma demo_update_deltalog:
  "map stateID (or_empty (a_deltalog (demo_update ids))) = ids"
  by (simp add: demo_update_def or_empty_def comp_def)

lemma demo_update_log:
  "update_log l (demo_update ids) =
     l @ filter (\<lambda>e. stateID e > last_id l) (map (\<lambda>i. \<lparr>stateID = i, entry = 7\<rparr>) ids)"
  by (simp add: update_log_def demo_update_def or_empty_def)

lemma demo_client_log: "log demo_client = []"
  by (simp add: demo_client_def)

text \<open>
  A new client is sent, three times over, UPDATE actions whose deltalogs overlap: the
  log ends with each stateID once.
\<close>

theorem update_keeps_log_strictly_increasing_witness:
  "atype (demo_update [0, 1]) = UPDATE \<and> atype (demo_update [1, 2]) = UPDATE \<and>
   sorted_wrt (<) (map stateID (or_empty (a_deltalog (demo_update [0, 1])))) \<and>
   sorted_wrt (<) (map stateID (or_empty (a_deltalog (demo_update [1, 2])))) \<and>
   sorted_wrt (<) (map stateID (log demo_client)) \<and>
   final_stateIDs
     (dispatch_all [demo_update [0, 1], demo_update [0, 1], demo_update [1, 2]] demo_client)
     = Some [0, 1, 2]"
proof -
  let ?as = "[demo_update [0, 1], demo_update [0, 1], demo_update [1, 2]]"
  have h1: "\<forall>a \<in> set ?as.
              atype a = UPDATE \<and> sorted_wrt (<) (map stateID (or_empty (a_deltalog a)))"
    by (simp add: demo_update_type demo_update_deltalog)
  have h2: "sorted_wrt (<) (map stateID (log demo_client))"
    by (simp add: demo_client_log)
  have ty: "\<forall>a \<in> set ?as. atype a = UPDATE"
    by (simp add: demo_update_type)
  have run: "final_stateIDs (dispatch_all ?as demo_client) = Some [0, 1, 2]"
    unfolding final_stateIDs_updates [OF ty]
    by (simp add: demo_update_log demo_client_log last_id_eq)
  from update_keeps_log_strictly_increasing [OF h1 h2, THEN conjunct1] obtain c1
    where ok: "dispatch_all ?as demo_client = Inr c1"
      and inc: "sorted_wrt (<) (map stateID (log c1))"
    by blast
  have a: "atype (demo_update [0, 1]) = UPDATE" "atype (demo_update [1, 2]) = UPDATE"
    by (simp_all add: demo_update_type)
  have b: "sorted_wrt (<) (map stateID (or_empty (a_deltalog (demo_update [0, 1]))))"
    "sorted_wrt (<) (map stateID (or_empty (a_deltalog (demo_update [1, 2]))))"
    by (simp_all add: demo_update_deltalog)
  from ok inc a b h2 run show ?thesis by blast
qed

text \<open>
  C1 as stated fails: one UPDATE whose deltalog holds two entries of stateID 1, sent to
  a new client, leaves a log that holds stateID 1 twice.
\<close>

theorem update_log_duplicates_counterexample:
  "final_stateIDs (dispatch_all [demo_update [1, 1]] demo_client) = Some [1, 1] \<and>
   \<not> distinct [1, 1 :: int] \<and> \<not> sorted_wrt (<) [1, 1 :: int]"
proof -
  have ty: "\<forall>a \<in> set [demo_update [1, 1]]. atype a = UPDATE"
    by (simp add: demo_update_type)
  show ?thesis
    unfolding final_stateIDs_updates [OF ty]
    by (simp add: demo_update_log demo_client_log last_id_eq)
qed

section \<open>RESET, then a move\<close>

lemma dispatch_RESET:
  "atype a = RESET \<Longrightarrow>
   \<exists>c1. dispatch a c = Inr (a, c1) \<and> log c1 = [] \<and>
        store c1 = reducer c (store c) a \<and> reducer c1 = reducer c"
  by (simp add: dispatch_eq Log_RESET)

lemma dispatch_MOVE:
  assumes "atype a = MAKE_MOVE \<or> atype a = GAME_EVENT"
    and "reducer c (store c) a = Some st" and "deltalog st = Some dl"
  shows "\<exists>c1. dispatch a c = Inr (a, c1) \<and> log c1 = log c @ dl \<and> store c1 = Some st"
  by (simp add: dispatch_eq Log_MOVE [OF assms])

text \<open>
  C4. Dispatching a RESET action returns and leaves the log empty, whatever it held,
  with the store holding what the reducer made of the action. When the reducer then
  answers a MAKE_MOVE or GAME_EVENT with a state that carries a deltalog, dispatching
  that action returns and the log is exactly that deltalog.
\<close>

theorem reset_clears_log_then_move_appends:
  assumes "atype r = RESET" and "atype m = MAKE_MOVE \<or> atype m = GAME_EVENT"
  shows "\<exists>c1. dispatch r c = Inr (r, c1) \<and> log c1 = [] \<and>
           store c1 = reducer c (store c) r \<and> reducer c1 = reducer c \<and>
           (\<forall>st dl. reducer c1 (store c1) m = Some st \<and> deltalog st = Some dl \<longrightarrow>
              (\<exists>c2. dispatch m c1 = Inr (m, c2) \<and> store c2 = Some st \<and> log c2 = dl))"
proof -
  from dispatch_RESET [OF assms(1), of c] obtain c1
    where r: "dispatch r c = Inr (r, c1)" "log c1 = []"
      "store c1 = reducer c (store c) r" "reducer c1 = reducer c"
    by blast
  have "\<exists>c2. dispatch m c1 = Inr (m, c2) \<and> store c2 = Some st \<and> log c2 = dl"
    if "reducer c1 (store c1) m = Some st" "deltalog st = Some dl" for st dl
    using dispatch_MOVE [OF assms(2) that] r(2) by auto
  with r show ?thesis by blast
qed

lemma demo_reset_move:
  "demo_reducer (demo_reducer s ((demo_action RESET)\<lparr>a_state := Some demo_state\<rparr>))
     (demo_action MAKE_MOVE) =
   Some \<lparr>G = 1, ctx = \<lparr>currentPlayer = JStr ''1'', gameover = None\<rparr>,
         deltalog = Some [\<lparr>stateID = 0, entry = 7\<rparr>]\<rparr>"
  by (simp add: demo_reducer_def demo_action_def demo_state_def other_player_def)

text \<open>A client whose log holds two entries is reset and then makes a move.\<close>

theorem reset_clears_log_then_move_appends_witness:
  "atype ((demo_action RESET)\<lparr>a_state := Some demo_state\<rparr>) = RESET \<and>
   atype (demo_action MAKE_MOVE :: (nat, nat) action) = MAKE_MOVE \<and>
   final_stateIDs
     (dispatch_all [(demo_action RESET)\<lparr>a_state := Some demo_state\<rparr>, demo_action MAKE_MOVE]
        (demo_client\<lparr>log := [\<lparr>stateID = 4, entry = 7\<rparr>, \<lparr>stateID = 5, entry = 7\<rparr>]\<rparr>))
     = Some [0]"
proof -
  let ?r = "(demo_action RESET)\<lparr>a_state := Some demo_state\<rparr> :: (nat, nat) action"
  let ?m = "demo_action MAKE_MOVE :: (nat, nat) action"
  let ?c = "demo_client\<lparr>log := [\<lparr>stateID = 4, entry = 7\<rparr>, \<lparr>stateID = 5, entry = 7\<rparr>]\<rparr>"
  let ?st = "\<lparr>G = 1, ctx = \<lparr>currentPlayer = JStr ''1'', gameover = None\<rparr>,
              deltalog = Some [\<lparr>stateID = 0, entry = 7 :: nat\<rparr>]\<rparr> :: (nat, nat) state"
  have t1: "atype ?r = RESET" by (simp add: demo_action_def)
  have t2: "atype ?m = MAKE_MOVE \<or> atype ?m = GAME_EVENT" by (simp add: demo_action_def)
  have t3: "atype ?m = MAKE_MOVE" by (simp add: demo_action_def)
  have red: "reducer ?c = demo_reducer" by (simp add: demo_client_def)
  from reset_clears_log_then_move_appends [OF t1 t2, of ?c] obtain c1
    where r: "dispatch ?r ?c = Inr (?r, c1)"
      and s: "store c1 = reducer ?c (store ?c) ?r" and rr: "reducer c1 = reducer ?c"
      and mv: "\<forall>st dl. reducer c1 (store c1) ?m = Some st \<and> deltalog st = Some dl \<longrightarrow>
                (\<exists>c2. dispatch ?m c1 = Inr (?m, c2) \<and> store c2 = Some st \<and> log c2 = dl)"
    by blast
  have "reducer c1 (store c1) ?m = Some ?st"
    by (simp only: s rr red demo_reset_move)
  moreover have "deltalog ?st = Some [\<lparr>stateID = 0, entry = 7\<rparr>]" by simp
  ultimately obtain c2 where m: "dispatch ?m c1 = Inr (?m, c2)"
    and l: "log c2 = [\<lparr>stateID = 0, entry = 7\<rparr>]"
    using mv by blast
  have "final_stateIDs (dispatch_all [?r, ?m] ?c) = Some [0]"
    by (simp add: r m l final_stateIDs_def)
  with t1 t3 show ?thesis by blast
qed

section \<open>The transport middleware\<close>

text \<open>
  C6. Whatever the inner dispatch is: when it returns, the transport middleware returns
  its result unchanged and, unless the action's clientOnly flag is true, has added one
  call of onAction, made after the inner dispatch and given the state the store held
  before it together with the action; when the flag is true it adds no call. An
  exception of the inner dispatch passes through. In the client's pipeline the inner
  dispatch is the one that applies the reducer, so the store holds the new state when
  onAction is called with the old one.
\<close>

theorem transport_middleware_forwards_pre_action_state:
  "(\<forall>result c1. next a c = Inr (result, c1) \<longrightarrow>
      TransportMiddleware next a c =
        Inr (result, if clientOnly a = Some True then c1
                     else c1\<lparr>calls := calls c1 @ [OnAction (store c) a]\<rparr>)) \<and>
   (\<forall>e. next a c = Inl e \<longrightarrow> TransportMiddleware next a c = Inl e) \<and>
   (\<forall>r c2. TransportMiddleware (LogMiddleware store_dispatch) a c = Inr (r, c2) \<longrightarrow>
      r = a \<and> store c2 = reducer c (store c) a \<and>
      calls c2 = calls c @ (if clientOnly a = Some True then [] else [OnAction (store c) a]))"
proof (intro conjI allI impI)
  fix result c1
  assume "next a c = Inr (result, c1)"
  then show "TransportMiddleware next a c =
        Inr (result, if clientOnly a = Some True then c1
                     else c1\<lparr>calls := calls c1 @ [OnAction (store c) a]\<rparr>)"
    by (simp add: TransportMiddleware_def)
next
  fix e
  assume "next a c = Inl e"
  then show "TransportMiddleware next a c = Inl e"
    by (simp add: TransportMiddleware_def)
next
  fix r c2
  assume t: "TransportMiddleware (LogMiddleware store_dispatch) a c = Inr (r, c2)"
  then obtain c1 where l: "LogMiddleware store_dispatch a c = Inr (r, c1)"
    and c2: "c2 = (if clientOnly a = Some True then c1
                   else c1\<lparr>calls := calls c1 @ [OnAction (store c) a]\<rparr>)"
    by (auto simp: TransportMiddleware_def split: sum.splits if_splits)
  from l have "r = a \<and> store c1 = reducer c (store c) a \<and> calls c1 = calls c"
    by (auto simp: LogMiddleware_def store_dispatch_def spread_log_def
        split: if_splits option.splits sum.splits)
  with c2 show "r = a" and "store c2 = reducer c (store c) a"
    and "calls c2 = calls c @ (if clientOnly a = Some True then [] else [OnAction (store c) a])"
    by auto
qed

lemma demo_move_state:
  "reducer demo_client (store demo_client) (demo_action MAKE_MOVE) =
   Some \<lparr>G = 1, ctx = \<lparr>currentPlayer = JStr ''1'', gameover = None\<rparr>,
         deltalog = Some [\<lparr>stateID = 0, entry = 7\<rparr>]\<rparr>"
  by (simp add: demo_client_def demo_reducer_def demo_action_def demo_state_def
      other_player_def)

lemma demo_client_calls: "calls demo_client = []"
  by (simp add: demo_client_def)

lemma demo_client_store: "store demo_client = Some demo_state"
  by (simp add: demo_client_def)

text \<open>
  A move of the demo client is forwarded with the state before the move; an UPDATE,
  which is flagged clientOnly, is not forwarded.
\<close>

theorem transport_middleware_forwards_pre_action_state_witness:
  "final_calls (TransportMiddleware (LogMiddleware store_dispatch) (demo_action MAKE_MOVE)
                  demo_client)
     = Some [OnAction (Some demo_state) (demo_action MAKE_MOVE)] \<and>
   final_calls (TransportMiddleware (LogMiddleware store_dispatch) (demo_update [0])
                  demo_client)
     = Some []"
proof -
  let ?next = "LogMiddleware store_dispatch ::
     (nat, nat) action \<Rightarrow> (nat, nat) client \<Rightarrow> error + ((nat, nat) action \<times> (nat, nat) client)"
  let ?m = "demo_action MAKE_MOVE :: (nat, nat) action"
  let ?u = "demo_update [0]"
  have tm: "atype ?m = MAKE_MOVE \<or> atype ?m = GAME_EVENT" by (simp add: demo_action_def)
  have fm: "clientOnly ?m \<noteq> Some True" by (simp add: demo_action_def)
  have fu: "clientOnly ?u = Some True" by (simp add: demo_update_def)
  obtain c1 where l1: "?next ?m demo_client = Inr (?m, c1)" and k1: "calls c1 = calls demo_client"
    using Log_MOVE [OF tm demo_move_state] by simp
  obtain c2 where l2: "?next ?u demo_client = Inr (?u, c2)" and k2: "calls c2 = calls demo_client"
    using Log_UPDATE [OF demo_update_type, of "[0]" demo_client] by simp
  note fwd = transport_middleware_forwards_pre_action_state
    [of ?next ?m demo_client, THEN conjunct1, rule_format, OF l1]
  have "TransportMiddleware ?next ?m demo_client =
          Inr (?m, c1\<lparr>calls := calls c1 @ [OnAction (store demo_client) ?m]\<rparr>)"
    by (simp only: fwd fm if_False)
  then have a: "final_calls (TransportMiddleware ?next ?m demo_client) =
          Some [OnAction (Some demo_state) ?m]"
    by (simp add: final_calls_def k1 demo_client_calls demo_client_store)
  note kept = transport_middleware_forwards_pre_action_state
    [of ?next ?u demo_client, THEN conjunct1, rule_format, OF l2]
  have "TransportMiddleware ?next ?u demo_client = Inr (?u, c2)"
    by (simp only: kept fu simp_thms if_True)
  then have b: "final_calls (TransportMiddleware ?next ?u demo_client) = Some []"
    by (simp add: final_calls_def k2 demo_client_calls)
  from a b show ?thesis by blast
qed

section \<open>isActive\<close>

text \<open>
  C3. When the store holds a state, getState returns a snapshot, and in it: isActive is
  false when ctx.gameover is set, whatever the mode and the identity; isActive is false
  for a client whose multiplayer option is truthy when the active-player predicate is
  false for its playerID; isActive is true for a client whose multiplayer option is
  falsy and whose playerID is null or undefined when ctx.gameover is unset, whatever
  the predicate says.
\<close>

theorem isActive_gating:
  assumes "store c = Some st"
  shows "\<exists>s. getState c = Some s \<and>
           (gameover (ctx st) \<noteq> None \<longrightarrow> \<not> isActive s) \<and>
           (truthy (multiplayer c) \<and>
              \<not> isPlayerActive (game c) (G st) (ctx st) (playerID c) \<longrightarrow> \<not> isActive s) \<and>
           (\<not> truthy (multiplayer c) \<and> (playerID c = JNull \<or> playerID c = JUndefined) \<and>
              gameover (ctx st) = None \<longrightarrow> isActive s)"
  using assms by (auto simp: getState_def Let_def)

lemma demo_over_fields:
  "gameover (ctx demo_over) = Some 1" "gameover (ctx demo_state) = None"
  "currentPlayer (ctx demo_state) = JStr ''0''"
  by (simp_all add: demo_over_def demo_state_def)

lemma demo_client_fields:
  "multiplayer demo_client = MUndefined" "playerID demo_client = JUndefined"
  "game demo_client = demo_game"
  by (simp_all add: demo_client_def)

text \<open>
  Three clients: one whose game is over; a multiplayer client that is player 1 while
  player 0 is to move; and the demo client, single-player and without playerID, for
  which the predicate is false as well.
\<close>

theorem isActive_gating_witness:
  "store (demo_client\<lparr>store := Some demo_over\<rparr>) = Some demo_over \<and>
   gameover (ctx demo_over) \<noteq> None \<and>
   map_option isActive (getState (demo_client\<lparr>store := Some demo_over\<rparr>)) = Some False \<and>
   truthy (multiplayer (demo_client\<lparr>multiplayer := MBool True, playerID := JStr ''1''\<rparr>)) \<and>
   \<not> isPlayerActive demo_game (G demo_state) (ctx demo_state) (JStr ''1'') \<and>
   map_option isActive
     (getState (demo_client\<lparr>multiplayer := MBool True, playerID := JStr ''1''\<rparr>)) = Some False \<and>
   \<not> truthy (multiplayer demo_client) \<and> playerID demo_client = JUndefined \<and>
   gameover (ctx demo_state) = None \<and>
   \<not> isPlayerActive demo_game (G demo_state) (ctx demo_state) JUndefined \<and>
   map_option isActive (getState demo_client) = Some True"
proof -
  let ?a = "demo_client\<lparr>store := Some demo_over\<rparr>"
  let ?b = "demo_client\<lparr>multiplayer := MBool True, playerID := JStr ''1''\<rparr>"
  have sa: "store ?a = Some demo_over" by simp
  have sb: "store ?b = Some demo_state" by (simp add: demo_client_store)
  have pa: "\<not> isPlayerActive demo_game (G demo_state) (ctx demo_state) (JStr ''1'')"
    "\<not> isPlayerActive demo_game (G demo_state) (ctx demo_state) JUndefined"
    by (simp_all add: demo_game_def demo_over_fields)
  have mb: "truthy (multiplayer ?b)" "playerID ?b = JStr ''1''" "game ?b = demo_game"
    by (simp_all add: demo_client_fields)
  have mc: "\<not> truthy (multiplayer demo_client)" by (simp add: demo_client_fields)
  from isActive_gating [OF sa] demo_over_fields(1)
  have a: "map_option isActive (getState ?a) = Some False" by auto
  from isActive_gating [OF sb] mb pa(1)
  have b: "map_option isActive (getState ?b) = Some False" by auto
  from isActive_gating [OF demo_client_store] mc demo_client_fields(2) demo_over_fields(2)
  have c: "map_option isActive (getState demo_client) = Some True" by auto
  from sa demo_over_fields a mb(1) pa b mc demo_client_fields(2) c
  show ?thesis by simp
qed

section \<open>Subscriptions\<close>

lemma getState_subscribeCallback: "getState (c\<lparr>subscribeCallback := x\<rparr>) = getState c"
  by (simp add: getState_def split: option.splits)

lemma listeners_append: "listeners (CbChain prev fn) = listeners prev @ [fn]"
  by simp

lemma subscribe_eq:
  "subscribe fn c =
     (Handle (subscribeCallback c),
      c\<lparr>subscribeCallback := CbChain (subscribeCallback c) fn,
        calls := calls c @ [TransportSubscribe (CbChain (subscribeCallback c) fn)]
                 @ map (\<lambda>f. Listener f (getState c)) (listeners (subscribeCallback c))
                 @ [Listener fn (getState c)]\<rparr>)"
  by (simp add: subscribe_def Let_def invoke_eq getState_calls getState_subscribeCallback
      del: invoke.simps)

text \<open>
  C9. subscribe(fn) returns, and before it does it has handed the new callback to the
  transport and called the new callback once: the listeners of the previous chain are
  called in their order and then fn, each with the snapshot getState() gives for the
  client as it was when subscribe was called. No action is dispatched: store and log
  are unchanged.
\<close>

theorem subscribe_invokes_chain_once:
  "\<exists>h c1. subscribe fn c = (h, c1) \<and>
      subscribeCallback c1 = CbChain (subscribeCallback c) fn \<and>
      calls c1 = calls c @ [TransportSubscribe (CbChain (subscribeCallback c) fn)]
                 @ map (\<lambda>f. Listener f (getState c)) (listeners (subscribeCallback c))
                 @ [Listener fn (getState c)] \<and>
      store c1 = store c \<and> log c1 = log c \<and> getState c1 = getState c"
  by (simp add: subscribe_eq getState_calls getState_subscribeCallback)

text \<open>Listener 3 subscribes to the demo client, to which listener 2 has subscribed.\<close>

theorem subscribe_invokes_chain_once_witness:
  "calls (snd (subscribe 3 (demo_client\<lparr>subscribeCallback := CbChain CbNoop 2\<rparr>))) =
     [TransportSubscribe (CbChain (CbChain CbNoop 2) 3),
      Listener 2 (getState demo_client), Listener 3 (getState demo_client)]"
proof -
  let ?c = "demo_client\<lparr>subscribeCallback := CbChain CbNoop 2\<rparr>"
  from subscribe_invokes_chain_once [of 3 ?c] obtain h c1
    where s: "subscribe 3 ?c = (h, c1)"
      and k: "calls c1 = calls ?c @ [TransportSubscribe (CbChain (subscribeCallback ?c) 3)]
                 @ map (\<lambda>f. Listener f (getState ?c)) (listeners (subscribeCallback ?c))
                 @ [Listener 3 (getState ?c)]"
    by blast
  have "calls (snd (subscribe 3 ?c)) = calls c1" by (simp add: s)
  also have "\<dots> = [TransportSubscribe (CbChain (CbChain CbNoop 2) 3),
      Listener 2 (getState demo_client), Listener 3 (getState demo_client)]"
    by (simp add: k getState_subscribeCallback demo_client_calls)
  finally show ?thesis .
qed

text \<open>
  C5. Listener A subscribes, then listener B, then the handle B's subscription returned
  is called. The client is then the client as it was after A's subscription, but for
  the record of the calls already made: its callback is the chain that was there before
  A followed by A. Every action dispatched from then on that returns has called, after
  the transport's onAction, the listeners of that chain in order, A last, and B is not
  among them unless it is A or was in the chain before.
\<close>

theorem unsubscribe_latest_restores_previous_chain:
  assumes "subscribe A c = (hA, c1)" and "subscribe B c1 = (hB, c2)"
    and "c3 = call_handle hB c2"
  shows "subscribeCallback c3 = subscribeCallback c1 \<and>
         subscribeCallback c1 = CbChain (subscribeCallback c) A \<and>
         listeners (subscribeCallback c3) = listeners (subscribeCallback c) @ [A] \<and>
         c3 = c1\<lparr>calls := calls c2\<rparr> \<and>
         (\<forall>a r c4. dispatch a c3 = Inr (r, c4) \<longrightarrow>
            calls c4 = calls c3
              @ (if clientOnly a = Some True then [] else [OnAction (store c3) a])
              @ map (\<lambda>f. Listener f (getState c4)) (listeners (subscribeCallback c) @ [A])) \<and>
         (B \<noteq> A \<and> B \<notin> set (listeners (subscribeCallback c)) \<longrightarrow>
            B \<notin> set (listeners (subscribeCallback c3)))"
proof -
  from assms(1) have c1: "c1 = c\<lparr>subscribeCallback := CbChain (subscribeCallback c) A,
        calls := calls c @ [TransportSubscribe (CbChain (subscribeCallback c) A)]
                 @ map (\<lambda>f. Listener f (getState c)) (listeners (subscribeCallback c))
                 @ [Listener A (getState c)]\<rparr>"
    by (simp add: subscribe_eq)
  from assms(2) have hB: "hB = Handle (subscribeCallback c1)"
    and c2: "c2 = c1\<lparr>subscribeCallback := CbChain (subscribeCallback c1) B,
        calls := calls c1 @ [TransportSubscribe (CbChain (subscribeCallback c1) B)]
                 @ map (\<lambda>f. Listener f (getState c1)) (listeners (subscribeCallback c1))
                 @ [Listener B (getState c1)]\<rparr>"
    by (simp_all add: subscribe_eq)
  have cb1: "subscribeCallback c1 = CbChain (subscribeCallback c) A"
    by (simp add: c1)
  have c3: "c3 = c1\<lparr>calls := calls c2\<rparr>"
    by (simp add: assms(3) hB c2)
  have cb3: "subscribeCallback c3 = subscribeCallback c1"
    by (simp add: c3)
  have ls: "listeners (subscribeCallback c3) = listeners (subscribeCallback c) @ [A]"
    by (simp add: cb3 cb1)
  have run: "calls c4 = calls c3
              @ (if clientOnly a = Some True then [] else [OnAction (store c3) a])
              @ map (\<lambda>f. Listener f (getState c4)) (listeners (subscribeCallback c) @ [A])"
    if d: "dispatch a c3 = Inr (r, c4)" for a r c4
  proof -
    from d obtain d1 where l: "LogMiddleware store_dispatch a c3 = Inr (r, d1)"
      and c4: "c4 = d1\<lparr>calls := calls d1
                          @ (if clientOnly a = Some True then [] else [OnAction (store c3) a])
                          @ map (\<lambda>f. Listener f (getState d1))
                                (listeners (subscribeCallback d1))\<rparr>"
      by (auto simp: dispatch_eq split: sum.splits)
    from l have keep: "calls d1 = calls c3 \<and> subscribeCallback d1 = subscribeCallback c3"
      by (auto simp: LogMiddleware_def store_dispatch_def spread_log_def
          split: if_splits option.splits sum.splits)
    have "getState c4 = getState d1" by (simp add: c4 getState_calls)
    with c4 keep ls show ?thesis by simp
  qed
  from cb3 cb1 ls c3 run show ?thesis by auto
qed

lemma demo_client_callback: "subscribeCallback demo_client = CbNoop"
  by (simp add: demo_client_def)

text \<open>Listeners 2 and 3 subscribe to the demo client, and 3 unsubscribes.\<close>

theorem unsubscribe_latest_restores_previous_chain_witness:
  "(3 :: nat) \<noteq> 2 \<and> 3 \<notin> set (listeners (subscribeCallback demo_client)) \<and>
   subscribeCallback
     (call_handle (fst (subscribe 3 (snd (subscribe 2 demo_client))))
                  (snd (subscribe 3 (snd (subscribe 2 demo_client)))))
     = CbChain CbNoop 2 \<and>
   listeners (subscribeCallback
     (call_handle (fst (subscribe 3 (snd (subscribe 2 demo_client))))
                  (snd (subscribe 3 (snd (subscribe 2 demo_client))))))
     = [2] \<and>
   3 \<notin> set (listeners (subscribeCallback
     (call_handle (fst (subscribe 3 (snd (subscribe 2 demo_client))))
                  (snd (subscribe 3 (snd (subscribe 2 demo_client)))))))"
proof -
  let ?c1 = "snd (subscribe 2 demo_client)"
  let ?hA = "fst (subscribe 2 demo_client)"
  let ?c2 = "snd (subscribe 3 ?c1)"
  let ?hB = "fst (subscribe 3 ?c1)"
  let ?c3 = "call_handle ?hB ?c2"
  have s1: "subscribe 2 demo_client = (?hA, ?c1)" by simp
  have s2: "subscribe 3 ?c1 = (?hB, ?c2)" by simp
  have n: "(3 :: nat) \<noteq> 2" "3 \<notin> set (listeners (subscribeCallback demo_client))"
    by (simp_all add: demo_client_callback)
  note t = unsubscribe_latest_restores_previous_chain [OF s1 s2 refl]
  from t have a: "subscribeCallback ?c3 = subscribeCallback ?c1"
    and b: "subscribeCallback ?c1 = CbChain (subscribeCallback demo_client) 2"
    and l: "listeners (subscribeCallback ?c3) = listeners (subscribeCallback demo_client) @ [2]"
    by blast+
  have x: "subscribeCallback ?c3 = CbChain CbNoop 2"
    by (simp only: a b demo_client_callback)
  have y: "listeners (subscribeCallback ?c3) = [2]"
    by (simp only: l demo_client_callback listeners.simps append_Nil)
  have z: "3 \<notin> set (listeners (subscribeCallback ?c3))"
    by (simp only: y) simp
  from n x y z show ?thesis by blast
qed

section \<open>Rebinding\<close>

lemma fold_dispatchers:
  "fold (\<lambda>nm ds. ds(nm \<mapsto> f nm)) names m x =
     (if x \<in> set names then Some (f x) else m x)"
  by (induction names arbitrary: m) auto

lemma createDispatchers_lookup:
  "createDispatchers k names p cr mp nm =
     (if nm \<in> set names
      then Some \<lparr>d_creator = k, d_name = nm, d_playerID = p, d_credentials = cr,
                 d_multiplayer = mp\<rparr>
      else None)"
  unfolding createDispatchers_def
  by (simp add: fold_dispatchers
      [where f = "\<lambda>nm. \<lparr>d_creator = k, d_name = nm, d_playerID = p, d_credentials = cr,
                          d_multiplayer = mp\<rparr>"])

lemma updateCredentials_eq:
  "updateCredentials cred c =
     c\<lparr>credentials := cred,
       moves := createMoveDispatchers (moveNames (game c)) (playerID c) cred (multiplayer c),
       events := createEventDispatchers (enabledEventNames (game c)) (playerID c) cred
                   (multiplayer c)\<rparr>"
  by (simp add: updateCredentials_def client_createDispatchers_def Let_def)

text \<open>
  C10. updateCredentials changes three fields of the client and nothing else: the
  credentials, and the two dispatcher sets, which are rebuilt for the names of the game
  with the playerID and multiplayer option the client has and the new credentials, so
  that every dispatcher in them carries the new credentials. It makes no call on the
  transport (the calls made are unchanged), where updatePlayerID and updateGameID each
  end with one call on the transport.
\<close>

theorem updateCredentials_frame:
  "updateCredentials cred c =
     c\<lparr>credentials := cred,
       moves := createMoveDispatchers (moveNames (game c)) (playerID c) cred (multiplayer c),
       events := createEventDispatchers (enabledEventNames (game c)) (playerID c) cred
                   (multiplayer c)\<rparr> \<and>
   calls (updateCredentials cred c) = calls c \<and>
   playerID (updateCredentials cred c) = playerID c \<and>
   gameID (updateCredentials cred c) = gameID c \<and>
   store (updateCredentials cred c) = store c \<and>
   log (updateCredentials cred c) = log c \<and>
   transport (updateCredentials cred c) = transport c \<and>
   dom (moves (updateCredentials cred c)) = set (moveNames (game c)) \<and>
   dom (events (updateCredentials cred c)) = set (enabledEventNames (game c)) \<and>
   (\<forall>nm d. moves (updateCredentials cred c) nm = Some d \<or>
            events (updateCredentials cred c) nm = Some d \<longrightarrow> d_credentials d = cred) \<and>
   calls (updatePlayerID pid c) = calls c @ [UpdatePlayerID pid] \<and>
   calls (updateGameID gid c) = calls c @ [UpdateGameID gid]"
proof -
  have d: "dom (moves (updateCredentials cred c)) = set (moveNames (game c))"
    "dom (events (updateCredentials cred c)) = set (enabledEventNames (game c))"
    by (auto simp: updateCredentials_eq createMoveDispatchers_def createEventDispatchers_def
        createDispatchers_lookup dom_def)
  have cr: "d_credentials d = cred"
    if "moves (updateCredentials cred c) nm = Some d \<or>
        events (updateCredentials cred c) nm = Some d" for nm d
    using that
    by (auto simp: updateCredentials_eq createMoveDispatchers_def createEventDispatchers_def
        createDispatchers_lookup split: if_splits)
  have k: "calls (updatePlayerID pid c) = calls c @ [UpdatePlayerID pid]"
    "calls (updateGameID gid c) = calls c @ [UpdateGameID gid]"
    by (simp_all add: updatePlayerID_def updateGameID_def client_createDispatchers_def Let_def)
  have f: "calls (updateCredentials cred c) = calls c"
    "playerID (updateCredentials cred c) = playerID c"
    "gameID (updateCredentials cred c) = gameID c"
    "store (updateCredentials cred c) = store c"
    "log (updateCredentials cred c) = log c"
    "transport (updateCredentials cred c) = transport c"
    by (simp_all add: updateCredentials_eq)
  from updateCredentials_eq [of cred c] d cr k f show ?thesis by blast
qed

lemma demo_game_names:
  "moveNames (game demo_client) = [''draw'']"
  "enabledEventNames (game demo_client) = [''endTurn'']"
  by (simp_all add: demo_client_def demo_game_def)

text \<open>The demo client is given the credentials "key".\<close>

theorem updateCredentials_frame_witness:
  "map_option d_credentials (moves (updateCredentials (JStr ''key'') demo_client) ''draw'')
     = Some (JStr ''key'') \<and>
   dom (moves (updateCredentials (JStr ''key'') demo_client)) = {''draw''} \<and>
   calls (updateCredentials (JStr ''key'') demo_client) = [] \<and>
   calls (updatePlayerID (JStr ''1'') demo_client) = [UpdatePlayerID (JStr ''1'')]"
proof -
  let ?c = "updateCredentials (JStr ''key'') demo_client"
  note t = updateCredentials_frame [of "JStr ''key''" demo_client "JStr ''1''" JUndefined]
  from t have d: "dom (moves ?c) = set (moveNames (game demo_client))"
    and k: "calls ?c = calls demo_client"
    and p: "calls (updatePlayerID (JStr ''1'') demo_client)
              = calls demo_client @ [UpdatePlayerID (JStr ''1'')]"
    and cr: "\<forall>nm d. moves ?c nm = Some d \<or> events ?c nm = Some d \<longrightarrow>
               d_credentials d = JStr ''key''"
    by blast+
  have d': "dom (moves ?c) = {''draw''}" by (simp only: d demo_game_names) simp
  then obtain dp where m: "moves ?c ''draw'' = Some dp" by blast
  with cr have "d_credentials dp = JStr ''key''" by blast
  with m have a: "map_option d_credentials (moves ?c ''draw'') = Some (JStr ''key'')"
    by simp
  have b: "calls ?c = []" by (simp only: k demo_client_calls)
  have c: "calls (updatePlayerID (JStr ''1'') demo_client) = [UpdatePlayerID (JStr ''1'')]"
    by (simp only: p demo_client_calls append_Nil)
  from a d' b c show ?thesis by blast
qed

section \<open>Construction\<close>

lemma ensureMaster_result:
  "ensureMaster gr g = (m, g1) \<Longrightarrow> localMaster g1 = Some m \<and> config m = gr"
  by (auto simp: ensureMaster_def newMaster_def Let_def split: option.splits if_splits)

lemma ensureMaster_reuse:
  "localMaster g = Some m \<Longrightarrow> config m = gr \<Longrightarrow> ensureMaster gr g = (m, g)"
  by (simp add: ensureMaster_def)

lemma selectTransport_local:
  "mp_is_local (o_multiplayer opt) \<Longrightarrow>
   \<exists>ta. selectTransport k opt c g =
          Inr (c\<lparr>transport := Local (fst (ensureMaster (gref (o_game opt)) g)) ta\<rparr>,
               snd (ensureMaster (gref (o_game opt)) g))"
  by (cases "o_multiplayer opt")
     (auto simp: selectTransport_def Let_def split: prod.splits)

lemma selectTransport_other:
  "\<not> mp_is_local (o_multiplayer opt) \<Longrightarrow> o_multiplayer opt \<noteq> MNull \<Longrightarrow>
   transport c = DefaultTransport \<Longrightarrow>
   \<exists>c1. selectTransport k opt c g = Inr (c1, g) \<and> master_of (transport c1) = None"
  by (cases "o_multiplayer opt")
     (auto simp: selectTransport_def Let_def split: option.splits)

lemma Client_local:
  assumes "mp_is_local (o_multiplayer opt)"
  shows "\<exists>c. Client k opt g = Inr (c, snd (ensureMaster (gref (o_game opt)) g)) \<and>
             master_of (transport c) = Some (fst (ensureMaster (gref (o_game opt)) g))"
proof -
  let ?c = "\<lparr>game = o_game opt, playerID = o_playerID opt, gameID = o_gameID opt,
               credentials = o_credentials opt, multiplayer = o_multiplayer opt,
               subscribeCallback = CbNoop,
               reducer = CreateGameReducer k (o_game opt) (o_numPlayers opt) (o_multiplayer opt),
               initialState = (if o_multiplayer opt = MUndefined
                  then Some (InitializeGame k (o_game opt) (o_numPlayers opt)) else None),
               store = createStore
                  (CreateGameReducer k (o_game opt) (o_numPlayers opt) (o_multiplayer opt))
                  (if o_multiplayer opt = MUndefined
                   then Some (InitializeGame k (o_game opt) (o_numPlayers opt)) else None),
               log = [], transport = DefaultTransport,
               moves = Map.empty, events = Map.empty, calls = []\<rparr>"
  from selectTransport_local [OF assms, of k ?c g] obtain ta
    where "selectTransport k opt ?c g =
          Inr (?c\<lparr>transport := Local (fst (ensureMaster (gref (o_game opt)) g)) ta\<rparr>,
               snd (ensureMaster (gref (o_game opt)) g))"
    by blast
  then show ?thesis
    by (simp add: Client_def Let_def client_createDispatchers_def)
qed

lemma Client_other:
  assumes "\<not> mp_is_local (o_multiplayer opt)" and "o_multiplayer opt \<noteq> MNull"
  shows "\<exists>c. Client k opt g = Inr (c, g) \<and> master_of (transport c) = None"
proof -
  let ?c = "\<lparr>game = o_game opt, playerID = o_playerID opt, gameID = o_gameID opt,
               credentials = o_credentials opt, multiplayer = o_multiplayer opt,
               subscribeCallback = CbNoop,
               reducer = CreateGameReducer k (o_game opt) (o_numPlayers opt) (o_multiplayer opt),
               initialState = (if o_multiplayer opt = MUndefined
                  then Some (InitializeGame k (o_game opt) (o_numPlayers opt)) else None),
               store = createStore
                  (CreateGameReducer k (o_game opt) (o_numPlayers opt) (o_multiplayer opt))
                  (if o_multiplayer opt = MUndefined
                   then Some (InitializeGame k (o_game opt) (o_numPlayers opt)) else None),
               log = [], transport = DefaultTransport,
               moves = Map.empty, events = Map.empty, calls = []\<rparr>"
  have "transport ?c = DefaultTransport" by simp
  from selectTransport_other [OF assms this, of k g] obtain c1
    where "selectTransport k opt ?c g = Inr (c1, g)" and "master_of (transport c1) = None"
    by blast
  then show ?thesis
    by (simp add: Client_def Let_def client_createDispatchers_def)
qed

lemma construct_all_append:
  "construct_all k (xs @ ys) g =
     (case construct_all k xs g of
        Inl e \<Rightarrow> Inl e
      | Inr (cs, g1) \<Rightarrow>
          (case construct_all k ys g1 of
             Inl e \<Rightarrow> Inl e
           | Inr (ds, g2) \<Rightarrow> Inr (cs @ ds, g2)))"
  by (induction xs arbitrary: g) (auto split: sum.splits prod.splits)

lemma construct_all_keeps_master:
  assumes "localMaster g = Some m" and "config m = gr"
    and "\<forall>x \<in> set mid. o_multiplayer x \<noteq> MNull \<and>
           (mp_is_local (o_multiplayer x) \<longrightarrow> gref (o_game x) = gr)"
  shows "\<exists>cs. construct_all k mid g = Inr (cs, g) \<and>
           (\<forall>c \<in> set cs. master_of (transport c) = None \<or> master_of (transport c) = Some m)"
  using assms(3)
proof (induction mid)
  case Nil
  show ?case by simp
next
  case (Cons x mid)
  from Cons.prems have nn: "o_multiplayer x \<noteq> MNull"
    and same: "mp_is_local (o_multiplayer x) \<longrightarrow> gref (o_game x) = gr"
    and rest: "\<forall>y \<in> set mid. o_multiplayer y \<noteq> MNull \<and>
           (mp_is_local (o_multiplayer y) \<longrightarrow> gref (o_game y) = gr)"
    by simp_all
  from Cons.IH [OF rest] obtain cs
    where cs: "construct_all k mid g = Inr (cs, g)"
      and ms: "\<forall>c \<in> set cs. master_of (transport c) = None \<or> master_of (transport c) = Some m"
    by blast
  have "\<exists>c. Client k x g = Inr (c, g) \<and>
          (master_of (transport c) = None \<or> master_of (transport c) = Some m)"
  proof (cases "mp_is_local (o_multiplayer x)")
    case True
    with same have "ensureMaster (gref (o_game x)) g = (m, g)"
      using ensureMaster_reuse [OF assms(1,2)] by simp
    with Client_local [OF True, of k g] show ?thesis by auto
  next
    case False
    from Client_other [OF False nn, of k g] show ?thesis by blast
  qed
  then obtain c where "Client k x g = Inr (c, g)"
    and "master_of (transport c) = None \<or> master_of (transport c) = Some m"
    by blast
  with cs ms show ?case by auto
qed

text \<open>
  C7, as amended. A client is constructed with a local master for a game definition;
  then any clients that have no local master or have one for the same game definition
  (and whose multiplayer option is not null); then another client with a local master
  for that game definition. All the constructions return, the first and the last client
  hold the same master, whatever their gameIDs, and it is the master the module holds
  at the end.
\<close>

theorem local_master_shared_between_constructions:
  assumes "mp_is_local (o_multiplayer o1)" and "mp_is_local (o_multiplayer o2)"
    and "gref (o_game o2) = gref (o_game o1)"
    and "\<forall>x \<in> set mid. o_multiplayer x \<noteq> MNull \<and>
           (mp_is_local (o_multiplayer x) \<longrightarrow> gref (o_game x) = gref (o_game o1))"
  shows "\<exists>c1 cs c2 g1 m. construct_all k (o1 # mid @ [o2]) g = Inr (c1 # cs @ [c2], g1) \<and>
           master_of (transport c1) = Some m \<and> master_of (transport c2) = Some m \<and>
           localMaster g1 = Some m"
proof -
  obtain m g1 where e: "ensureMaster (gref (o_game o1)) g = (m, g1)"
    by (cases "ensureMaster (gref (o_game o1)) g") blast
  from ensureMaster_result [OF e] have lm: "localMaster g1 = Some m"
    and cf: "config m = gref (o_game o1)"
    by simp_all
  from Client_local [OF assms(1), of k g] e obtain c1
    where c1: "Client k o1 g = Inr (c1, g1)" and m1: "master_of (transport c1) = Some m"
    by auto
  from construct_all_keeps_master [OF lm cf assms(4), of k] obtain cs
    where cs: "construct_all k mid g1 = Inr (cs, g1)"
    by blast
  have "ensureMaster (gref (o_game o2)) g1 = (m, g1)"
    using ensureMaster_reuse [OF lm cf] assms(3) by simp
  with Client_local [OF assms(2), of k g1] obtain c2
    where c2: "Client k o2 g1 = Inr (c2, g1)" and m2: "master_of (transport c2) = Some m"
    by auto
  have "construct_all k (o1 # mid @ [o2]) g = Inr (c1 # cs @ [c2], g1)"
    by (simp add: c1 construct_all_append cs c2)
  with m1 m2 lm show ?thesis by blast
qed

lemma construct_all_returns:
  "\<forall>x \<in> set xs. o_multiplayer x \<noteq> MNull \<Longrightarrow> \<exists>cs g2. construct_all k xs g = Inr (cs, g2)"
proof (induction xs arbitrary: g)
  case Nil
  show ?case by simp
next
  case (Cons x xs)
  from Cons.prems have nn: "o_multiplayer x \<noteq> MNull"
    and rest: "\<forall>y \<in> set xs. o_multiplayer y \<noteq> MNull"
    by simp_all
  have "\<exists>c g1. Client k x g = Inr (c, g1)"
    using Client_local [of x k g] Client_other [OF _ nn, of k g] by blast
  then obtain c g1 where c: "Client k x g = Inr (c, g1)" by blast
  from Cons.IH [OF rest, of g1] obtain cs g2 where "construct_all k xs g1 = Inr (cs, g2)"
    by blast
  with c show ?case by simp
qed

lemma masters_of_Cons_local:
  assumes "mp_is_local (o_multiplayer x)"
    and "ensureMaster (gref (o_game x)) g = (m, g1)"
    and "\<forall>y \<in> set xs. o_multiplayer y \<noteq> MNull"
  shows "masters_of (construct_all k (x # xs) g) =
           Some (m_id m) # masters_of (construct_all k xs g1)"
proof -
  from Client_local [OF assms(1), of k g] assms(2) obtain c
    where c: "Client k x g = Inr (c, g1)" and m: "master_of (transport c) = Some m"
    by auto
  from construct_all_returns [OF assms(3), of k g1] obtain cs g2
    where "construct_all k xs g1 = Inr (cs, g2)"
    by blast
  with c m show ?thesis by (simp add: masters_of_def)
qed

lemma masters_of_Cons_other:
  assumes "\<not> mp_is_local (o_multiplayer x)" and "o_multiplayer x \<noteq> MNull"
    and "\<forall>y \<in> set xs. o_multiplayer y \<noteq> MNull"
  shows "masters_of (construct_all k (x # xs) g) = None # masters_of (construct_all k xs g)"
proof -
  from Client_other [OF assms(1,2), of k g] obtain c
    where c: "Client k x g = Inr (c, g)" and m: "master_of (transport c) = None"
    by blast
  from construct_all_returns [OF assms(3), of k g] obtain cs g2
    where "construct_all k xs g = Inr (cs, g2)"
    by blast
  with c m show ?thesis by (simp add: masters_of_def)
qed

lemma demo_local_fields:
  "mp_is_local (o_multiplayer (demo_local n))" "gref (o_game (demo_local n)) = n"
  "o_multiplayer (demo_local n) \<noteq> MNull" "o_gameID (demo_local n) = JStr ''default''"
  by (simp_all add: demo_local_def)

lemma demo_opts_fields:
  "\<not> mp_is_local (o_multiplayer demo_opts)" "o_multiplayer demo_opts \<noteq> MNull"
  "o_multiplayer demo_opts = MUndefined" "o_playerID demo_opts = JUndefined"
  "o_credentials demo_opts = JUndefined" "o_game demo_opts = demo_game"
  by (simp_all add: demo_opts_def)

lemma demo_masters:
  "ensureMaster 7 demo_global =
     (\<lparr>m_id = 0, config = 7\<rparr>, \<lparr>localMaster = Some \<lparr>m_id = 0, config = 7\<rparr>, masters = 1\<rparr>)"
  "ensureMaster 8 \<lparr>localMaster = Some \<lparr>m_id = 0, config = 7\<rparr>, masters = 1\<rparr> =
     (\<lparr>m_id = 1, config = 8\<rparr>, \<lparr>localMaster = Some \<lparr>m_id = 1, config = 8\<rparr>, masters = 2\<rparr>)"
  "ensureMaster 7 \<lparr>localMaster = Some \<lparr>m_id = 1, config = 8\<rparr>, masters = 2\<rparr> =
     (\<lparr>m_id = 2, config = 7\<rparr>, \<lparr>localMaster = Some \<lparr>m_id = 2, config = 7\<rparr>, masters = 3\<rparr>)"
  "ensureMaster 7 \<lparr>localMaster = Some \<lparr>m_id = 0, config = 7\<rparr>, masters = 1\<rparr> =
     (\<lparr>m_id = 0, config = 7\<rparr>, \<lparr>localMaster = Some \<lparr>m_id = 0, config = 7\<rparr>, masters = 1\<rparr>)"
  by (simp_all add: ensureMaster_def newMaster_def demo_global_def Let_def)

lemma masters_of_Nil: "masters_of (construct_all k [] g) = []"
  by (simp add: masters_of_def)

text \<open>
  Two clients with a local master for game definition 7, and a single-player client
  constructed between them: the two hold master 0.
\<close>

theorem local_master_shared_between_constructions_witness:
  "mp_is_local (o_multiplayer (demo_local 7)) \<and>
   o_multiplayer demo_opts \<noteq> MNull \<and> \<not> mp_is_local (o_multiplayer demo_opts) \<and>
   masters_of (construct_all demo_core [demo_local 7, demo_opts, demo_local 7] demo_global)
     = [Some 0, None, Some 0]"
proof -
  have mid: "\<forall>x \<in> set [demo_opts]. o_multiplayer x \<noteq> MNull \<and>
           (mp_is_local (o_multiplayer x) \<longrightarrow> gref (o_game x) = gref (o_game (demo_local 7)))"
    by (simp add: demo_opts_fields)
  from local_master_shared_between_constructions
    [OF demo_local_fields(1) demo_local_fields(1) refl mid, of demo_core demo_global]
  obtain c1 cs c2 g1 m
    where run: "construct_all demo_core (demo_local 7 # [demo_opts] @ [demo_local 7]) demo_global
                  = Inr (c1 # cs @ [c2], g1)"
      and "master_of (transport c1) = Some m" and "master_of (transport c2) = Some m"
    by blast
  have n1: "\<forall>y \<in> set [demo_opts, demo_local 7]. o_multiplayer y \<noteq> MNull"
    by (simp add: demo_opts_fields demo_local_fields)
  have n2: "\<forall>y \<in> set [demo_local 7]. o_multiplayer y \<noteq> MNull"
    by (simp add: demo_local_fields)
  have n3: "\<forall>y \<in> set ([] :: (nat, nat) opts list). o_multiplayer y \<noteq> MNull"
    by simp
  have e1: "ensureMaster (gref (o_game (demo_local 7))) demo_global =
     (\<lparr>m_id = 0, config = 7\<rparr>, \<lparr>localMaster = Some \<lparr>m_id = 0, config = 7\<rparr>, masters = 1\<rparr>)"
    by (simp only: demo_local_fields demo_masters)
  have e3: "ensureMaster (gref (o_game (demo_local 7)))
              \<lparr>localMaster = Some \<lparr>m_id = 0, config = 7\<rparr>, masters = 1\<rparr> =
     (\<lparr>m_id = 0, config = 7\<rparr>, \<lparr>localMaster = Some \<lparr>m_id = 0, config = 7\<rparr>, masters = 1\<rparr>)"
    by (simp only: demo_local_fields demo_masters)
  have "masters_of (construct_all demo_core [demo_local 7, demo_opts, demo_local 7] demo_global)
          = [Some (m_id \<lparr>m_id = 0, config = 7\<rparr>), None, Some (m_id \<lparr>m_id = 0, config = 7\<rparr>)]"
    by (simp only: masters_of_Cons_local [OF demo_local_fields(1) e1 n1]
        masters_of_Cons_other [OF demo_opts_fields(1,2) n2]
        masters_of_Cons_local [OF demo_local_fields(1) e3 n3] masters_of_Nil)
  then have "masters_of (construct_all demo_core [demo_local 7, demo_opts, demo_local 7]
               demo_global) = [Some 0, None, Some 0]"
    by simp
  with run demo_local_fields(1) demo_opts_fields(1,2) show ?thesis by blast
qed

text \<open>
  C7 as stated fails: between two clients with a local master for game definition 7, a
  client with a local master for game definition 8 is constructed. The three clients
  hold three different masters, though the first and the last were constructed against
  the same game definition and the same gameID.
\<close>

theorem local_master_replaced_counterexample:
  "masters_of (construct_all demo_core [demo_local 7, demo_local 8, demo_local 7] demo_global)
     = [Some 0, Some 1, Some 2] \<and>
   mp_is_local (o_multiplayer (demo_local 7)) \<and> mp_is_local (o_multiplayer (demo_local 8))"
proof -
  have n1: "\<forall>y \<in> set [demo_local 8, demo_local 7]. o_multiplayer y \<noteq> MNull"
    by (simp add: demo_local_fields)
  have n2: "\<forall>y \<in> set [demo_local 7]. o_multiplayer y \<noteq> MNull"
    by (simp add: demo_local_fields)
  have n3: "\<forall>y \<in> set ([] :: (nat, nat) opts list). o_multiplayer y \<noteq> MNull"
    by simp
  have e1: "ensureMaster (gref (o_game (demo_local 7))) demo_global =
     (\<lparr>m_id = 0, config = 7\<rparr>, \<lparr>localMaster = Some \<lparr>m_id = 0, config = 7\<rparr>, masters = 1\<rparr>)"
    by (simp only: demo_local_fields demo_masters)
  have e2: "ensureMaster (gref (o_game (demo_local 8)))
              \<lparr>localMaster = Some \<lparr>m_id = 0, config = 7\<rparr>, masters = 1\<rparr> =
     (\<lparr>m_id = 1, config = 8\<rparr>, \<lparr>localMaster = Some \<lparr>m_id = 1, config = 8\<rparr>, masters = 2\<rparr>)"
    by (simp only: demo_local_fields demo_masters)
  have e3: "ensureMaster (gref (o_game (demo_local 7)))
              \<lparr>localMaster = Some \<lparr>m_id = 1, config = 8\<rparr>, masters = 2\<rparr> =
     (\<lparr>m_id = 2, config = 7\<rparr>, \<lparr>localMaster = Some \<lparr>m_id = 2, config = 7\<rparr>, masters = 3\<rparr>)"
    by (simp only: demo_local_fields demo_masters)
  have "masters_of (construct_all demo_core [demo_local 7, demo_local 8, demo_local 7]
          demo_global)
          = [Some (m_id \<lparr>m_id = 0, config = 7\<rparr>), Some (m_id \<lparr>m_id = 1, config = 8\<rparr>),
             Some (m_id \<lparr>m_id = 2, config = 7\<rparr>)]"
    by (simp only: masters_of_Cons_local [OF demo_local_fields(1) e1 n1]
        masters_of_Cons_local [OF demo_local_fields(1) e2 n2]
        masters_of_Cons_local [OF demo_local_fields(1) e3 n3] masters_of_Nil)
  with demo_local_fields(1) [of 7] demo_local_fields(1) [of 8] show ?thesis by simp
qed




section \<open>Dispatchers of a single-player client\<close>

lemma Client_single:
  "o_multiplayer opt = MUndefined \<Longrightarrow>
   Client k opt g =
     Inr (\<lparr>game = o_game opt, playerID = o_playerID opt, gameID = o_gameID opt,
           credentials = o_credentials opt, multiplayer = MUndefined,
           subscribeCallback = CbNoop,
           reducer = CreateGameReducer k (o_game opt) (o_numPlayers opt) MUndefined,
           initialState = Some (InitializeGame k (o_game opt) (o_numPlayers opt)),
           store = createStore (CreateGameReducer k (o_game opt) (o_numPlayers opt) MUndefined)
                     (Some (InitializeGame k (o_game opt) (o_numPlayers opt))),
           log = [], transport = DefaultTransport,
           moves = createMoveDispatchers (moveNames (o_game opt)) (o_playerID opt)
                     (o_credentials opt) MUndefined,
           events = createEventDispatchers (enabledEventNames (o_game opt)) (o_playerID opt)
                     (o_credentials opt) MUndefined,
           calls = [SubscribeGameMetadata]\<rparr>, g)"
  by (simp add: Client_def selectTransport_def client_createDispatchers_def Let_def)

lemma dispatcher_resolves:
  assumes "\<not> truthy (d_multiplayer d)" and "d_playerID d = JNull \<or> d_playerID d = JUndefined"
    and "store c = Some st"
  shows "dispatcher_action d args c =
           Inr (ActionCreators (d_creator d) (d_name d) args (currentPlayer (ctx st))
                  (d_credentials d))"
  using assms by (auto simp: dispatcher_action_def assumedPlayerID_def)

lemma ActionCreators_playerID:
  "map_option p_playerID (payload (ActionCreators kind nm args pid cred)) = Some pid"
  by (simp add: ActionCreators_def)

text \<open>
  C2. A client constructed with no multiplayer option and with playerID null or
  undefined is returned by the constructor, and each dispatcher it holds, for a move
  name or for an event name of the game, behaves as follows whenever it is called,
  on the client in whatever state it then is, provided the store holds a state: the
  action it builds, and dispatches, is the one the action creator makes from the name,
  the arguments, the currentPlayer of the ctx in the store at that call, and the
  credentials. So two calls made while the store holds states with different current
  players build actions with different playerIDs.
\<close>

theorem single_player_dispatch_uses_current_player:
  fixes k :: "('g, 'v) core"
  assumes "o_multiplayer opt = MUndefined"
    and "o_playerID opt = JNull \<or> o_playerID opt = JUndefined"
  shows "\<exists>c. Client k opt g = Inr (c, g) \<and>
     (\<forall>kind nm ds.
        (kind = MakeMove \<and> nm \<in> set (moveNames (o_game opt)) \<and> ds = moves c) \<or>
        (kind = GameEvent \<and> nm \<in> set (enabledEventNames (o_game opt)) \<and> ds = events c) \<longrightarrow>
        (\<exists>d. ds nm = Some d \<and>
           (\<forall>(c1 :: ('g, 'v) client) st args. store c1 = Some st \<longrightarrow>
              dispatcher_action d args c1 =
                Inr (ActionCreators kind nm args (currentPlayer (ctx st)) (o_credentials opt)) \<and>
              call_dispatcher d args c1 =
                (case dispatch (ActionCreators kind nm args (currentPlayer (ctx st))
                                  (o_credentials opt)) c1 of
                   Inl e \<Rightarrow> Inl e
                 | Inr (r, c2) \<Rightarrow> Inr c2)) \<and>
           (\<forall>(c1 :: ('g, 'v) client) (c2 :: ('g, 'v) client) st1 st2 args a1 a2.
              store c1 = Some st1 \<and> store c2 = Some st2 \<and>
              currentPlayer (ctx st1) \<noteq> currentPlayer (ctx st2) \<and>
              dispatcher_action d args c1 = Inr a1 \<and> dispatcher_action d args c2 = Inr a2 \<longrightarrow>
              map_option p_playerID (payload a1) \<noteq> map_option p_playerID (payload a2))))"
proof -
  let ?c = "\<lparr>game = o_game opt, playerID = o_playerID opt, gameID = o_gameID opt,
           credentials = o_credentials opt, multiplayer = MUndefined,
           subscribeCallback = CbNoop,
           reducer = CreateGameReducer k (o_game opt) (o_numPlayers opt) MUndefined,
           initialState = Some (InitializeGame k (o_game opt) (o_numPlayers opt)),
           store = createStore (CreateGameReducer k (o_game opt) (o_numPlayers opt) MUndefined)
                     (Some (InitializeGame k (o_game opt) (o_numPlayers opt))),
           log = [], transport = DefaultTransport,
           moves = createMoveDispatchers (moveNames (o_game opt)) (o_playerID opt)
                     (o_credentials opt) MUndefined,
           events = createEventDispatchers (enabledEventNames (o_game opt)) (o_playerID opt)
                     (o_credentials opt) MUndefined,
           calls = [SubscribeGameMetadata]\<rparr>"
  have built: "Client k opt g = Inr (?c, g)"
    by (rule Client_single [OF assms(1)])
  have each: "\<exists>d. ds nm = Some d \<and>
           (\<forall>(c1 :: ('g, 'v) client) st args. store c1 = Some st \<longrightarrow>
              dispatcher_action d args c1 =
                Inr (ActionCreators kind nm args (currentPlayer (ctx st)) (o_credentials opt)) \<and>
              call_dispatcher d args c1 =
                (case dispatch (ActionCreators kind nm args (currentPlayer (ctx st))
                                  (o_credentials opt)) c1 of
                   Inl e \<Rightarrow> Inl e
                 | Inr (r, c2) \<Rightarrow> Inr c2)) \<and>
           (\<forall>(c1 :: ('g, 'v) client) (c2 :: ('g, 'v) client) st1 st2 args a1 a2.
              store c1 = Some st1 \<and> store c2 = Some st2 \<and>
              currentPlayer (ctx st1) \<noteq> currentPlayer (ctx st2) \<and>
              dispatcher_action d args c1 = Inr a1 \<and> dispatcher_action d args c2 = Inr a2 \<longrightarrow>
              map_option p_playerID (payload a1) \<noteq> map_option p_playerID (payload a2))"
    if h: "(kind = MakeMove \<and> nm \<in> set (moveNames (o_game opt)) \<and> ds = moves ?c) \<or>
        (kind = GameEvent \<and> nm \<in> set (enabledEventNames (o_game opt)) \<and> ds = events ?c)"
    for kind nm ds
  proof -
    let ?d = "\<lparr>d_creator = kind, d_name = nm, d_playerID = o_playerID opt,
               d_credentials = o_credentials opt, d_multiplayer = MUndefined\<rparr>"
    from h have found: "ds nm = Some ?d"
      by (auto simp: createMoveDispatchers_def createEventDispatchers_def
          createDispatchers_lookup)
    have t: "\<not> truthy (d_multiplayer ?d)" by simp
    have p: "d_playerID ?d = JNull \<or> d_playerID ?d = JUndefined" using assms(2) by simp
    have act: "dispatcher_action ?d args c1 =
                Inr (ActionCreators kind nm args (currentPlayer (ctx st)) (o_credentials opt))"
      if "store c1 = Some st" for c1 :: "('g, 'v) client" and st args
      using dispatcher_resolves [OF t p that, of args] by simp
    have call: "call_dispatcher ?d args c1 =
                (case dispatch (ActionCreators kind nm args (currentPlayer (ctx st))
                                  (o_credentials opt)) c1 of
                   Inl e \<Rightarrow> Inl e
                 | Inr (r, c2) \<Rightarrow> Inr c2)"
      if "store c1 = Some st" for c1 :: "('g, 'v) client" and st args
      by (simp add: call_dispatcher_def act [OF that])
    have diff: "map_option p_playerID (payload a1) \<noteq> map_option p_playerID (payload a2)"
      if "store c1 = Some st1" "store c2 = Some st2"
        "currentPlayer (ctx st1) \<noteq> currentPlayer (ctx st2)"
        "dispatcher_action ?d args c1 = Inr a1" "dispatcher_action ?d args c2 = Inr a2"
      for c1 c2 :: "('g, 'v) client" and st1 st2 args a1 a2
    proof -
      from that(4) act [OF that(1), of args]
      have "a1 = ActionCreators kind nm args (currentPlayer (ctx st1)) (o_credentials opt)"
        by simp
      then have "map_option p_playerID (payload a1) = Some (currentPlayer (ctx st1))"
        by (simp only: ActionCreators_playerID)
      moreover from that(5) act [OF that(2), of args]
      have "a2 = ActionCreators kind nm args (currentPlayer (ctx st2)) (o_credentials opt)"
        by simp
      then have "map_option p_playerID (payload a2) = Some (currentPlayer (ctx st2))"
        by (simp only: ActionCreators_playerID)
      ultimately show ?thesis using that(3) by (simp only: option.inject) simp
    qed
    from found act call diff show ?thesis by blast
  qed
  from built each show ?thesis by blast
qed


lemma demo_draw_held:
  "createMoveDispatchers (moveNames (o_game demo_opts)) (o_playerID demo_opts)
     (o_credentials demo_opts) MUndefined ''draw'' = Some demo_draw"
  by (simp add: createMoveDispatchers_def createDispatchers_lookup demo_opts_def
      demo_game_def demo_draw_def)

text \<open>
  The demo client, single-player and without playerID: its dispatcher for "draw" builds
  an action for player 0 while player 0 is to move, and one for player 1 once the store
  holds a state in which player 1 is to move.
\<close>

theorem single_player_dispatch_uses_current_player_witness:
  "o_multiplayer demo_opts = MUndefined \<and> o_playerID demo_opts = JUndefined \<and>
   ''draw'' \<in> set (moveNames (o_game demo_opts)) \<and>
   dispatcher_action demo_draw [] demo_client =
     Inr (ActionCreators MakeMove ''draw'' [] (JStr ''0'') JUndefined) \<and>
   dispatcher_action demo_draw []
       (demo_client\<lparr>store := Some (demo_state\<lparr>ctx := \<lparr>currentPlayer = JStr ''1'',
                                                         gameover = None\<rparr>\<rparr>)\<rparr>) =
     Inr (ActionCreators MakeMove ''draw'' [] (JStr ''1'') JUndefined)"
proof -
  let ?st = "demo_state\<lparr>ctx := \<lparr>currentPlayer = JStr ''1'', gameover = None\<rparr>\<rparr>"
  let ?c2 = "demo_client\<lparr>store := Some ?st\<rparr>"
  have u: "o_multiplayer demo_opts = MUndefined" by (rule demo_opts_fields(3))
  have p: "o_playerID demo_opts = JNull \<or> o_playerID demo_opts = JUndefined"
    by (simp add: demo_opts_fields)
  have nm: "''draw'' \<in> set (moveNames (o_game demo_opts))"
    by (simp add: demo_opts_fields demo_game_def)
  note t = single_player_dispatch_uses_current_player [OF u p, of demo_core demo_global]
  from t obtain c where c: "Client demo_core demo_opts demo_global = Inr (c, demo_global) \<and>
     (\<forall>kind nm ds.
        (kind = MakeMove \<and> nm \<in> set (moveNames (o_game demo_opts)) \<and> ds = moves c) \<or>
        (kind = GameEvent \<and> nm \<in> set (enabledEventNames (o_game demo_opts)) \<and> ds = events c) \<longrightarrow>
        (\<exists>d. ds nm = Some d \<and>
           (\<forall>(c1 :: (nat, nat) client) st args. store c1 = Some st \<longrightarrow>
              dispatcher_action d args c1 =
                Inr (ActionCreators kind nm args (currentPlayer (ctx st)) (o_credentials demo_opts)) \<and>
              call_dispatcher d args c1 =
                (case dispatch (ActionCreators kind nm args (currentPlayer (ctx st))
                                  (o_credentials demo_opts)) c1 of
                   Inl e \<Rightarrow> Inl e
                 | Inr (r, c2) \<Rightarrow> Inr c2)) \<and>
           (\<forall>(c1 :: (nat, nat) client) (c2 :: (nat, nat) client) st1 st2 args a1 a2.
              store c1 = Some st1 \<and> store c2 = Some st2 \<and>
              currentPlayer (ctx st1) \<noteq> currentPlayer (ctx st2) \<and>
              dispatcher_action d args c1 = Inr a1 \<and> dispatcher_action d args c2 = Inr a2 \<longrightarrow>
              map_option p_playerID (payload a1) \<noteq> map_option p_playerID (payload a2))))" ..
  note built = c [THEN conjunct1]
  have "\<exists>d. moves c ''draw'' = Some d \<and>
           (\<forall>(c1 :: (nat, nat) client) st args. store c1 = Some st \<longrightarrow>
              dispatcher_action d args c1 =
                Inr (ActionCreators MakeMove ''draw'' args (currentPlayer (ctx st)) (o_credentials demo_opts)) \<and>
              call_dispatcher d args c1 =
                (case dispatch (ActionCreators MakeMove ''draw'' args (currentPlayer (ctx st))
                                  (o_credentials demo_opts)) c1 of
                   Inl e \<Rightarrow> Inl e
                 | Inr (r, c2) \<Rightarrow> Inr c2)) \<and>
           (\<forall>(c1 :: (nat, nat) client) (c2 :: (nat, nat) client) st1 st2 args a1 a2.
              store c1 = Some st1 \<and> store c2 = Some st2 \<and>
              currentPlayer (ctx st1) \<noteq> currentPlayer (ctx st2) \<and>
              dispatcher_action d args c1 = Inr a1 \<and> dispatcher_action d args c2 = Inr a2 \<longrightarrow>
              map_option p_playerID (payload a1) \<noteq> map_option p_playerID (payload a2))"
    by (rule c [THEN conjunct2, rule_format, of MakeMove "''draw''" "moves c"])
       (simp add: nm)
  then obtain d where d: "moves c ''draw'' = Some d \<and>
           (\<forall>(c1 :: (nat, nat) client) st args. store c1 = Some st \<longrightarrow>
              dispatcher_action d args c1 =
                Inr (ActionCreators MakeMove ''draw'' args (currentPlayer (ctx st)) (o_credentials demo_opts)) \<and>
              call_dispatcher d args c1 =
                (case dispatch (ActionCreators MakeMove ''draw'' args (currentPlayer (ctx st))
                                  (o_credentials demo_opts)) c1 of
                   Inl e \<Rightarrow> Inl e
                 | Inr (r, c2) \<Rightarrow> Inr c2)) \<and>
           (\<forall>(c1 :: (nat, nat) client) (c2 :: (nat, nat) client) st1 st2 args a1 a2.
              store c1 = Some st1 \<and> store c2 = Some st2 \<and>
              currentPlayer (ctx st1) \<noteq> currentPlayer (ctx st2) \<and>
              dispatcher_action d args c1 = Inr a1 \<and> dispatcher_action d args c2 = Inr a2 \<longrightarrow>
              map_option p_playerID (payload a1) \<noteq> map_option p_playerID (payload a2))" ..
  note held = d [THEN conjunct1]
  note act = d [THEN conjunct2, THEN conjunct1, rule_format, THEN conjunct1]
  from built have "moves c = createMoveDispatchers (moveNames (o_game demo_opts))
       (o_playerID demo_opts) (o_credentials demo_opts) MUndefined"
    unfolding Client_single [OF u] by auto
  with held have dd: "d = demo_draw" by (simp add: demo_draw_held)
  have s2: "store ?c2 = Some ?st" by simp
  have a1: "dispatcher_action demo_draw [] demo_client =
     Inr (ActionCreators MakeMove ''draw'' [] (currentPlayer (ctx demo_state))
            (o_credentials demo_opts))"
    using act [OF demo_client_store, of "[]"] unfolding dd .
  have a2: "dispatcher_action demo_draw [] ?c2 =
     Inr (ActionCreators MakeMove ''draw'' [] (currentPlayer (ctx ?st))
            (o_credentials demo_opts))"
    using act [OF s2, of "[]"] unfolding dd .
  have b1: "dispatcher_action demo_draw [] demo_client =
     Inr (ActionCreators MakeMove ''draw'' [] (JStr ''0'') JUndefined)"
    by (simp only: a1 demo_over_fields demo_opts_fields)
  have cp: "currentPlayer (ctx ?st) = JStr ''1''" by simp
  have b2: "dispatcher_action demo_draw [] ?c2 =
     Inr (ActionCreators MakeMove ''draw'' [] (JStr ''1'') JUndefined)"
    by (simp only: a2 cp demo_opts_fields)
  from u demo_opts_fields(4) nm b1 b2 show ?thesis by (intro conjI)
qed

end
